theory Spec2Isabelle
  imports Main "HOL-Library.AList"
begin

section \<open>Shared game types\<close>

text \<open>
  The colours of both games (\<open>type Color\<close> and \<open>COLORS\<close> of the shared game types).
\<close>

datatype Color = red | blue | yellow | green

definition COLORS :: "Color list" where
  "COLORS = [red, blue, yellow, green]"

section \<open>Values of the language\<close>

subsection \<open>Numbers\<close>

text \<open>
  A \<open>number\<close> of the source is an IEEE double. The model covers the doubles with an
  integer value, as integers; fractions and infinities are outside the model. Every
  integer up to \<open>2^53\<close> in magnitude is a double; above, the doubles are the multiples of
  a power of two, \<open>ulp a\<close> for the magnitude \<open>a\<close>, that grows with the magnitude.

  The sum and the difference of two doubles is the double nearest to the exact result,
  the one with the even quotient when two are equally near: \<open>to_double\<close> of the exact
  result.

  \<open>Math.floor(Math.random() * n)\<close> is an input of the model: each function that draws
  random numbers takes the drawn indices as an argument. \<open>Math.random()\<close> lies in
  \<open>[0, 1)\<close>, so a drawn index is below \<open>n\<close>; theorems that depend on it assume it.
\<close>

function ulp :: "int \<Rightarrow> int" where
  "ulp a = (if a < 9007199254740992 then 1 else 2 * ulp (a div 2))"
  by pat_completeness auto
termination
  by (relation "measure nat") auto

declare ulp.simps [simp del]

definition to_double :: "int \<Rightarrow> int" where
  "to_double x =
     (let a = \<bar>x\<bar>; u = ulp a; q = a div u; r = a mod u;
          q' = (if 2 * r < u then q else if u < 2 * r then q + 1
                else if even q then q else q + 1)
      in sgn x * (q' * u))"

definition js_plus :: "int \<Rightarrow> int \<Rightarrow> int" where
  "js_plus x y = to_double (x + y)"

definition js_minus :: "int \<Rightarrow> int \<Rightarrow> int" where
  "js_minus x y = to_double (x - y)"

text \<open>
  \<open>NaN\<close> is modelled where the code produces it: the sum of \<open>undefined\<close> and a number.
\<close>

datatype jsnum = Num int | NaN

subsection \<open>Values that may be missing\<close>

text \<open>
  A property of an object may be missing, and reading it gives \<open>undefined\<close>; a value
  of a type \<open>T | null\<close> may be \<open>null\<close>.
\<close>

datatype 'a js = Undefined | Null | Val 'a

text \<open>\<open>x + 1\<close> for what a property of type \<open>number\<close> may hold.\<close>

definition plus_one :: "jsnum js \<Rightarrow> jsnum" where
  "plus_one x =
     (case x of
        Undefined \<Rightarrow> NaN
      | Null \<Rightarrow> Num (js_plus 0 1)
      | Val NaN \<Rightarrow> NaN
      | Val (Num n) \<Rightarrow> Num (js_plus n 1))"

subsection \<open>Arrays\<close>

text \<open>
  An array is modelled by the list of its elements. An array has at most \<open>2^32 - 1\<close>
  elements, and its indices are the integers below that bound. \<open>arr[i]\<close> for a number
  \<open>i\<close> is \<open>undefined\<close> outside the array.
\<close>

definition MAX_ARRAY_LENGTH :: nat where
  "MAX_ARRAY_LENGTH = 4294967295"

definition js_index :: "'a list \<Rightarrow> int \<Rightarrow> 'a option" where
  "js_index xs i =
     (if 0 \<le> i \<and> i < int (length xs) \<and> i < 4294967295 then Some (xs ! nat i) else None)"

subsection \<open>Objects used as dictionaries\<close>

text \<open>
  The own properties of an object are modelled by the list of keys and values in
  enumeration order, the order in which \<open>Object.keys\<close>, \<open>Object.values\<close> and
  \<open>Object.entries\<close> walk them: array-index keys first, in ascending numeric order, then
  every other key in the order of its creation. An object has each key once.
\<close>

type_synonym 'v props = "(string \<times> 'v) list"

definition is_digit :: "char \<Rightarrow> bool" where
  "is_digit c = (48 \<le> (of_char c :: int) \<and> (of_char c :: int) \<le> 57)"

definition dec_val :: "string \<Rightarrow> int" where
  "dec_val k = foldl (\<lambda>n c. 10 * n + ((of_char c :: int) - 48)) 0 k"

text \<open>
  An array index is a canonical numeric string (no leading zero, no sign) whose value is
  at most \<open>2^32 - 2\<close>.
\<close>

definition array_index :: "string \<Rightarrow> int option" where
  "array_index k =
     (if k \<noteq> [] \<and> list_all is_digit k \<and> (hd k \<noteq> CHR ''0'' \<or> length k = 1)
         \<and> dec_val k < 4294967295
      then Some (dec_val k) else None)"

text \<open>Creating a property that the object does not have yet.\<close>

fun obj_insert :: "string \<Rightarrow> 'v \<Rightarrow> 'v props \<Rightarrow> 'v props" where
  "obj_insert k v [] = [(k, v)]"
| "obj_insert k v ((k', v') # rest) =
     (case array_index k of
        None \<Rightarrow> (k', v') # obj_insert k v rest
      | Some n \<Rightarrow>
          (case array_index k' of
             None \<Rightarrow> (k, v) # (k', v') # rest
           | Some m \<Rightarrow> if m < n then (k', v') # obj_insert k v rest
                      else (k, v) # (k', v') # rest))"

text \<open>\<open>Object.values(obj)\<close> and \<open>Object.keys(obj)\<close>.\<close>

definition obj_values :: "'v props \<Rightarrow> 'v list" where
  "obj_values ob = map snd ob"

definition obj_keys :: "'v props \<Rightarrow> string list" where
  "obj_keys ob = map fst ob"

text \<open>
  The objects of the source are created by object literals, so their prototype is
  \<open>Object.prototype\<close>, and \<open>obj[k]\<close> for a key that is not an own property reads what
  \<open>Object.prototype\<close> has under that name: a built-in function under the names below,
  and under \<open>__proto__\<close> an accessor that returns the prototype of the object.
\<close>

definition OBJECT_PROTOTYPE_FUNCTIONS :: "string list" where
  "OBJECT_PROTOTYPE_FUNCTIONS =
     [''constructor'', ''hasOwnProperty'', ''isPrototypeOf'', ''propertyIsEnumerable'',
      ''toLocaleString'', ''toString'', ''valueOf'', ''__defineGetter__'',
      ''__defineSetter__'', ''__lookupGetter__'', ''__lookupSetter__'']"

text \<open>
  What \<open>obj[k]\<close> gives: a value of the dictionary; a built-in object, that is one of the
  functions above or \<open>Object.prototype\<close> itself, which is truthy and has no enumerable
  property and none of the properties that the source reads; a primitive value
  inherited from a prototype that the code has installed (see \<open>PlayerStates\<close> below);
  or \<open>undefined\<close>.
\<close>

datatype 'v slot = Value 'v | Builtin | Primitive | Missing

text \<open>\<open>obj[k]\<close> for an object whose prototype is \<open>Object.prototype\<close>.\<close>

definition plain_get :: "'v props \<Rightarrow> string \<Rightarrow> 'v slot" where
  "plain_get ob k =
     (case map_of ob k of
        Some v \<Rightarrow> Value v
      | None \<Rightarrow>
          if k = ''__proto__'' \<or> k \<in> set OBJECT_PROTOTYPE_FUNCTIONS then Builtin
          else Missing)"

text \<open>
  \<open>obj[k] = v\<close> for a primitive value \<open>v\<close> and an object whose prototype is
  \<open>Object.prototype\<close>: an own property keeps its place, a new one is created, except
  under \<open>__proto__\<close>, where the assignment calls the setter of the accessor, which
  ignores a primitive value.
\<close>

definition plain_set_primitive :: "string \<Rightarrow> 'v \<Rightarrow> 'v props \<Rightarrow> 'v props" where
  "plain_set_primitive k v ob =
     (if map_of ob k \<noteq> None then AList.update k v ob
      else if k = ''__proto__'' then ob
      else obj_insert k v ob)"

section \<open>Simon game logic\<close>

datatype SimonPhase =
    waiting | countdown | showing_sequence | player_input | round_result
  | elimination | finished

datatype SimonPlayerStatus = playing | eliminated | spectating

text \<open>
  A \<open>SimonPlayerState\<close> has its four properties. The record below also has the objects
  that the code creates with some of them missing (\<open>Undefined\<close>), see \<open>eliminatePlayer\<close>
  and \<open>updatePlayerProgress\<close>.
\<close>

record SimonPlayerState =
  playerId :: "string js"
  status :: "SimonPlayerStatus js"
  currentInputIndex :: "jsnum js"
  eliminatedAtRound :: "int js"

text \<open>The object \<open>{}\<close> as a player state: every property is missing.\<close>

definition no_properties :: SimonPlayerState where
  "no_properties =
     \<lparr> playerId = Undefined, status = Undefined, currentInputIndex = Undefined,
       eliminatedAtRound = Undefined \<rparr>"

text \<open>
  The dictionary \<open>playerStates\<close>: its own properties and its prototype, which is
  \<open>Object.prototype\<close> (\<open>None\<close>) unless an assignment to \<open>__proto__\<close> has installed a
  player state object in its place. The prototype of such an object is
  \<open>Object.prototype\<close> again.
\<close>

record PlayerStates =
  entries :: "SimonPlayerState props"
  prototype :: "SimonPlayerState option"

text \<open>\<open>{}\<close> and \<open>{ ...obj }\<close>: a copy has the own properties and a new prototype.\<close>

definition empty_object :: PlayerStates where
  "empty_object = \<lparr> entries = [], prototype = None \<rparr>"

definition spread :: "PlayerStates \<Rightarrow> PlayerStates" where
  "spread ob = \<lparr> entries = entries ob, prototype = None \<rparr>"

text \<open>The own properties that a player state object has.\<close>

definition has_property :: "SimonPlayerState \<Rightarrow> string \<Rightarrow> bool" where
  "has_property st k =
     (k = ''playerId'' \<and> playerId st \<noteq> Undefined
      \<or> k = ''status'' \<and> status st \<noteq> Undefined
      \<or> k = ''currentInputIndex'' \<and> currentInputIndex st \<noteq> Undefined
      \<or> k = ''eliminatedAtRound'' \<and> eliminatedAtRound st \<noteq> Undefined)"

text \<open>
  \<open>playerStates[k]\<close>: an own property; else a property of the installed prototype,
  which is a primitive value; else what \<open>Object.prototype\<close> has, where \<open>__proto__\<close>
  returns the prototype of \<open>playerStates\<close>.
\<close>

definition js_get :: "PlayerStates \<Rightarrow> string \<Rightarrow> SimonPlayerState slot" where
  "js_get ob k =
     (case map_of (entries ob) k of
        Some st \<Rightarrow> Value st
      | None \<Rightarrow>
          (case prototype ob of
             None \<Rightarrow> plain_get [] k
           | Some p \<Rightarrow>
               if has_property p k then Primitive
               else if k = ''__proto__'' then Value p
               else plain_get [] k))"

text \<open>
  \<open>playerStates[k] = v\<close> for an object \<open>v\<close>: an own property keeps its place, a new one
  is created, except under \<open>__proto__\<close>, where the assignment calls the setter of the
  accessor, which makes \<open>v\<close> the prototype of \<open>playerStates\<close> and creates no property.
\<close>

definition js_set :: "string \<Rightarrow> SimonPlayerState \<Rightarrow> PlayerStates \<Rightarrow> PlayerStates" where
  "js_set k v ob =
     (if map_of (entries ob) k \<noteq> None then ob\<lparr> entries := AList.update k v (entries ob) \<rparr>
      else if k = ''__proto__'' then ob\<lparr> prototype := Some v \<rparr>
      else ob\<lparr> entries := obj_insert k v (entries ob) \<rparr>)"

text \<open>
  The field \<open>gameType\<close> is the constant \<open>'simon'\<close> and is left out; \<open>round\<close> and
  \<open>phase\<close> carry a prefix because both game states have them.
\<close>

record SimonGameState =
  simon_phase :: SimonPhase
  sequence :: "Color list"
  simon_round :: int
  playerStates :: PlayerStates
  currentShowingIndex :: int
  timeoutMs :: int
  winnerId :: "string option"

text \<open>\<open>SIMON_CONSTANTS\<close>.\<close>

definition INITIAL_SEQUENCE_LENGTH :: nat where "INITIAL_SEQUENCE_LENGTH = 1"
definition INITIAL_TIMEOUT_MS :: int where "INITIAL_TIMEOUT_MS = 5000"
definition TIMEOUT_DECREMENT_MS :: int where "TIMEOUT_DECREMENT_MS = 250"
definition MIN_TIMEOUT_MS :: int where "MIN_TIMEOUT_MS = 1500"

text \<open>
  \<open>generateSequence(length)\<close>: the loop pushes \<open>COLORS[randomIndex]\<close> once for each
  \<open>i < length\<close>; \<open>rnd i\<close> is the index drawn in iteration \<open>i\<close>.
\<close>

definition generateSequence :: "(nat \<Rightarrow> nat) \<Rightarrow> nat \<Rightarrow> Color list" where
  "generateSequence rnd len = map (\<lambda>i. COLORS ! rnd i) [0..<len]"

definition extendSequence :: "nat \<Rightarrow> Color list \<Rightarrow> Color list" where
  "extendSequence randomIndex currentSequence = currentSequence @ [COLORS ! randomIndex]"

text \<open>
  \<open>initializeSimonGame(players)\<close>: only the \<open>id\<close> of a player is read, so the players
  are given by their ids, in the order of the array.
\<close>

definition initialPlayerState :: "string \<Rightarrow> SimonPlayerState" where
  "initialPlayerState pid =
     \<lparr> playerId = Val pid, status = Val playing, currentInputIndex = Val (Num 0),
       eliminatedAtRound = Null \<rparr>"

definition initializeSimonGame :: "(nat \<Rightarrow> nat) \<Rightarrow> string list \<Rightarrow> SimonGameState" where
  "initializeSimonGame rnd players =
     (let playerStates0 =
            foldl (\<lambda>ob pid. js_set pid (initialPlayerState pid) ob) empty_object players;
          initialSequence = generateSequence rnd INITIAL_SEQUENCE_LENGTH
      in \<lparr> simon_phase = showing_sequence,
           sequence = initialSequence,
           simon_round = 1,
           playerStates = playerStates0,
           currentShowingIndex = 0,
           timeoutMs = INITIAL_TIMEOUT_MS,
           winnerId = None \<rparr>)"

text \<open>
  \<open>validateInput\<close>: \<open>!playerState\<close> holds of \<open>undefined\<close> and of a falsy primitive; a
  built-in object and a truthy primitive have no \<open>currentInputIndex\<close>, and
  \<open>undefined !== inputIndex\<close> holds of every number, as \<open>NaN !== inputIndex\<close> does.
\<close>

definition validateInput :: "SimonGameState \<Rightarrow> string \<Rightarrow> Color \<Rightarrow> int \<Rightarrow> bool" where
  "validateInput gameState pid color inputIndex =
     (case js_get (playerStates gameState) pid of
        Missing \<Rightarrow> False
      | Primitive \<Rightarrow> False
      | Builtin \<Rightarrow> False
      | Value playerState \<Rightarrow>
          if currentInputIndex playerState \<noteq> Val (Num inputIndex) then False
          else Some color = js_index (sequence gameState) inputIndex)"

definition advanceToNextRound :: "nat \<Rightarrow> SimonGameState \<Rightarrow> SimonGameState" where
  "advanceToNextRound randomIndex gameState =
     (let newSequence = extendSequence randomIndex (sequence gameState);
          newTimeout = max MIN_TIMEOUT_MS (js_minus (timeoutMs gameState) TIMEOUT_DECREMENT_MS);
          updatedPlayerStates =
            foldl (\<lambda>ob (pid, st). js_set pid (st\<lparr>currentInputIndex := Val (Num 0)\<rparr>) ob)
              empty_object (entries (playerStates gameState))
      in gameState\<lparr> simon_phase := showing_sequence,
                     sequence := newSequence,
                     simon_round := js_plus (simon_round gameState) 1,
                     playerStates := updatedPlayerStates,
                     currentShowingIndex := 0,
                     timeoutMs := newTimeout \<rparr>)"

text \<open>
  \<open>eliminatePlayer\<close> reads \<open>updatedPlayerStates[playerId]\<close> from the copy. An own
  property is a player state. A built-in object is truthy as well, and its spread adds
  no property, so that the object assigned has the two properties written here only.
  (A copy has no installed prototype, so that no primitive is read from it.)
\<close>

definition eliminatePlayer :: "SimonGameState \<Rightarrow> string \<Rightarrow> int \<Rightarrow> SimonGameState" where
  "eliminatePlayer gameState pid rnd_no =
     (let updatedPlayerStates = spread (playerStates gameState);
          updatedPlayerStates' =
            (case js_get updatedPlayerStates pid of
               Missing \<Rightarrow> updatedPlayerStates
             | Primitive \<Rightarrow> updatedPlayerStates
             | Value st \<Rightarrow>
                 js_set pid (st\<lparr>status := Val eliminated, eliminatedAtRound := Val rnd_no\<rparr>)
                   updatedPlayerStates
             | Builtin \<Rightarrow>
                 js_set pid
                   (no_properties\<lparr>status := Val eliminated, eliminatedAtRound := Val rnd_no\<rparr>)
                   updatedPlayerStates)
      in gameState\<lparr> playerStates := updatedPlayerStates' \<rparr>)"

definition shouldGameEnd :: "SimonGameState \<Rightarrow> bool" where
  "shouldGameEnd gameState =
     (let activePlayers =
            filter (\<lambda>st. status st = Val playing)
              (obj_values (entries (playerStates gameState)))
      in length activePlayers \<le> 1)"

text \<open>
  The callback of the \<open>forEach\<close> loop in \<open>getWinner\<close>, as a function of the two
  variables that the loop updates, \<open>lastEliminatedRound\<close> and \<open>lastPlayerId\<close>. A missing
  \<open>eliminatedAtRound\<close> differs from \<open>null\<close> and compares false with every number.
\<close>

definition lastEliminated_step ::
  "int \<times> string js \<Rightarrow> SimonPlayerState \<Rightarrow> int \<times> string js" where
  "lastEliminated_step acc st =
     (case acc of (lastEliminatedRound, lastPlayerId) \<Rightarrow>
        (case eliminatedAtRound st of
           Null \<Rightarrow> (lastEliminatedRound, lastPlayerId)
         | Undefined \<Rightarrow> (lastEliminatedRound, lastPlayerId)
         | Val r \<Rightarrow>
             if r > lastEliminatedRound then (r, playerId st)
             else (lastEliminatedRound, lastPlayerId)))"

definition getWinner :: "SimonGameState \<Rightarrow> string js" where
  "getWinner gameState =
     (let activePlayers =
            filter (\<lambda>st. status st = Val playing)
              (obj_values (entries (playerStates gameState)))
      in if length activePlayers = 1 then playerId (activePlayers ! 0)
         else if length activePlayers = 0 then
           snd (foldl lastEliminated_step (-1, Null)
                  (obj_values (entries (playerStates gameState))))
         else Null)"

definition getActivePlayerCount :: "SimonGameState \<Rightarrow> nat" where
  "getActivePlayerCount gameState =
     length (filter (\<lambda>st. status st = Val playing)
               (obj_values (entries (playerStates gameState))))"

text \<open>
  \<open>updatePlayerProgress\<close> reads from the copy like \<open>eliminatePlayer\<close>. A built-in object
  has no \<open>currentInputIndex\<close>, and \<open>undefined + 1\<close> is \<open>NaN\<close>.
\<close>

definition updatePlayerProgress :: "SimonGameState \<Rightarrow> string \<Rightarrow> SimonGameState" where
  "updatePlayerProgress gameState pid =
     (let updatedPlayerStates = spread (playerStates gameState);
          updatedPlayerStates' =
            (case js_get updatedPlayerStates pid of
               Missing \<Rightarrow> updatedPlayerStates
             | Primitive \<Rightarrow> updatedPlayerStates
             | Value st \<Rightarrow>
                 js_set pid (st\<lparr>currentInputIndex := Val (plus_one (currentInputIndex st))\<rparr>)
                   updatedPlayerStates
             | Builtin \<Rightarrow>
                 js_set pid (no_properties\<lparr>currentInputIndex := Val (plus_one Undefined)\<rparr>)
                   updatedPlayerStates)
      in gameState\<lparr> playerStates := updatedPlayerStates' \<rparr>)"

text \<open>
  The callers apply \<open>updatePlayerProgress\<close> to an input only after \<open>validateInput\<close>
  has accepted it. \<open>reachable\<close> holds of the states that a game goes through when it
  is played that way: it starts with \<open>initializeSimonGame\<close>, and each step is an
  accepted input, an elimination or a round advancement.
\<close>

inductive reachable :: "SimonGameState \<Rightarrow> bool" where
  reach_init: "reachable (initializeSimonGame rnd players)"
| reach_input: "reachable s \<Longrightarrow> validateInput s p c i \<Longrightarrow> reachable (updatePlayerProgress s p)"
| reach_eliminate: "reachable s \<Longrightarrow> reachable (eliminatePlayer s p r)"
| reach_advance: "reachable s \<Longrightarrow> reachable (advanceToNextRound randomIndex s)"

text \<open>
  One application of a state-changing operation, with any arguments and without the
  validation above.
\<close>

inductive simon_step :: "SimonGameState \<Rightarrow> SimonGameState \<Rightarrow> bool" where
  step_progress: "simon_step s (updatePlayerProgress s p)"
| step_eliminate: "simon_step s (eliminatePlayer s p r)"
| step_advance: "simon_step s (advanceToNextRound randomIndex s)"

section \<open>Color Race game logic\<close>

text \<open>
  The phases \<open>waiting\<close>, \<open>countdown\<close>, \<open>round_result\<close> and \<open>finished\<close> exist in
  both games; the ones of Color Race carry the prefix \<open>race\<close>.
\<close>

datatype ColorRacePhase =
  race_waiting | race_countdown | showing_color | race_round_result | race_finished

text \<open>
  A score is a number, in the model one with an integer value. \<open>processRound\<close> can
  also store a string, the text of a built-in object followed by \<open>1\<close>; the text depends
  on the engine and is left out.
\<close>

datatype score = Score int | Text

record ColorRaceGameState =
  race_phase :: ColorRacePhase
  currentColor :: "Color option"
  race_round :: int
  totalRounds :: int
  scores :: "score props"
  roundWinner :: "string option"

record PlayerAnswer =
  answer_playerId :: string
  answer_color :: Color
  timestamp :: int

definition getRandomColor :: "nat \<Rightarrow> Color" where
  "getRandomColor randomIndex = COLORS ! randomIndex"

text \<open>
  \<open>advanceToNextRound\<close> of the Color Race module. The random colour is drawn only when
  the game goes on.
\<close>

definition race_advanceToNextRound ::
  "nat \<Rightarrow> ColorRaceGameState \<Rightarrow> string option \<Rightarrow> ColorRaceGameState" where
  "race_advanceToNextRound randomIndex gameState roundWinnerId =
     (let isLastRound = (race_round gameState \<ge> totalRounds gameState)
      in if isLastRound then
           gameState\<lparr> race_phase := race_finished,
                         roundWinner := roundWinnerId,
                         currentColor := None \<rparr>
         else
           gameState\<lparr> race_phase := showing_color,
                         currentColor := Some (getRandomColor randomIndex),
                         race_round := js_plus (race_round gameState) 1,
                         roundWinner := roundWinnerId \<rparr>)"

text \<open>
  \<open>xs.reduce(f)\<close> without an initial value starts from the first element and folds the
  rest into it; \<open>processRound\<close> calls it on a non-empty array only.
\<close>

definition reduce1 :: "('a \<Rightarrow> 'a \<Rightarrow> 'a) \<Rightarrow> 'a list \<Rightarrow> 'a" where
  "reduce1 f xs = foldl f (hd xs) (tl xs)"

text \<open>The callback that \<open>processRound\<close> passes to \<open>reduce\<close>.\<close>

definition fasterAnswer :: "PlayerAnswer \<Rightarrow> PlayerAnswer \<Rightarrow> PlayerAnswer" where
  "fasterAnswer prev current = (if timestamp current < timestamp prev then current else prev)"

text \<open>
  \<open>(newScores[k] || 0) + 1\<close>, for what \<open>newScores[k]\<close> gives. A number that is not
  \<open>0\<close> is truthy, and \<open>0\<close> and \<open>undefined\<close> give way to \<open>0\<close>: the result is a number plus
  one. A string and a built-in object are truthy, and \<open>+\<close> joins their text and \<open>1\<close>
  to a string.
\<close>

definition or_zero_plus_one :: "score slot \<Rightarrow> score" where
  "or_zero_plus_one x =
     (case x of
        Value (Score n) \<Rightarrow> Score (js_plus (if n = 0 then 0 else n) 1)
      | Value Text \<Rightarrow> Text
      | Builtin \<Rightarrow> Text
      | Primitive \<Rightarrow> Text
      | Missing \<Rightarrow> Score (js_plus 0 1))"

definition processRound ::
  "nat \<Rightarrow> ColorRaceGameState \<Rightarrow> PlayerAnswer list \<Rightarrow> ColorRaceGameState" where
  "processRound randomIndex gameState answers =
     (let correctAnswers =
            filter (\<lambda>answer. Some (answer_color answer) = currentColor gameState) answers
      in if length correctAnswers = 0 then race_advanceToNextRound randomIndex gameState None
         else
           let fastest = reduce1 fasterAnswer correctAnswers;
               newScores =
                 plain_set_primitive (answer_playerId fastest)
                   (or_zero_plus_one (plain_get (scores gameState) (answer_playerId fastest)))
                   (scores gameState)
           in race_advanceToNextRound randomIndex (gameState\<lparr> scores := newScores \<rparr>)
                (Some (answer_playerId fastest)))"

text \<open>
  \<open>determineWinner\<close> returns \<open>null\<close> or the object \<open>{ winnerId, winnerScore }\<close>, here
  the pair of the two. \<open>highestScore_step\<close> is the callback of its \<open>forEach\<close> loop, as
  a function of the two variables that the loop updates, \<open>winnerId\<close> and \<open>maxScore\<close>;
  a key without a number compares false and changes nothing.
\<close>

definition highestScore_step ::
  "score props \<Rightarrow> string \<times> int \<Rightarrow> string \<Rightarrow> string \<times> int" where
  "highestScore_step scores0 acc pid =
     (case acc of (winner, maxScore) \<Rightarrow>
        (case map_of scores0 pid of
           None \<Rightarrow> (winner, maxScore)
         | Some Text \<Rightarrow> (winner, maxScore)
         | Some (Score score) \<Rightarrow>
             if score > maxScore then (pid, score) else (winner, maxScore)))"

definition determineWinner :: "ColorRaceGameState \<Rightarrow> (string \<times> int) option" where
  "determineWinner gameState =
     (let playerIds = obj_keys (scores gameState)
      in if length playerIds = 0 then None
         else Some (foldl (highestScore_step (scores gameState)) ([], -1) playerIds))"

section \<open>Game codes\<close>

definition GAME_CODE_CHARS :: string where
  "GAME_CODE_CHARS = ''ABCDEFGHJKMNPQRSTUVWXYZ23456789''"

text \<open>
  Modelled from the spec: \<open>PLATFORM_CONSTANTS.GAME_CODE_LENGTH\<close>, whose declaration is
  not part of the sources at hand. The specification gives room codes 6 characters.
\<close>

definition GAME_CODE_LENGTH :: nat where
  "GAME_CODE_LENGTH = 6"

text \<open>
  \<open>generateRandomCode()\<close>: \<open>rnd i\<close> is the index drawn in iteration \<open>i\<close>. Reading the
  alphabet outside its range gives \<open>undefined\<close>, which \<open>+=\<close> appends as a word.
\<close>

definition generateRandomCode :: "(nat \<Rightarrow> nat) \<Rightarrow> string" where
  "generateRandomCode rnd =
     foldl (\<lambda>code i.
              code @ (if rnd i < length GAME_CODE_CHARS then [GAME_CODE_CHARS ! rnd i]
                      else ''undefined''))
       [] [0..<GAME_CODE_LENGTH]"

datatype error = Error string

text \<open>
  \<open>generateGameCode(existingCodes, maxAttempts)\<close>: the loop over \<open>attempt\<close>, where
  \<open>rnd attempt\<close> gives the draws of that attempt, and the entry point that starts it
  at \<open>0\<close>. The \<open>throw\<close> is the result \<open>Inl\<close>. The bound is a natural number: a
  bound below 1 leaves no attempt, as in the source. The default values of the two
  parameters are arguments that a caller leaves out.
\<close>

function generateGameCode_loop ::
  "(nat \<Rightarrow> nat \<Rightarrow> nat) \<Rightarrow> string set \<Rightarrow> nat \<Rightarrow> nat \<Rightarrow> error + string" where
  "generateGameCode_loop rnd existingCodes maxAttempts attempt =
     (if attempt < maxAttempts then
        (if generateRandomCode (rnd attempt) \<notin> existingCodes
         then Inr (generateRandomCode (rnd attempt))
         else generateGameCode_loop rnd existingCodes maxAttempts (attempt + 1))
      else Inl (Error ''Failed to generate unique game code after maximum attempts''))"
  by pat_completeness auto
termination
  by (relation "measure (\<lambda>(rnd, existingCodes, maxAttempts, attempt). maxAttempts - attempt)") auto

declare generateGameCode_loop.simps [simp del]

definition generateGameCode ::
  "(nat \<Rightarrow> nat \<Rightarrow> nat) \<Rightarrow> string set \<Rightarrow> nat \<Rightarrow> error + string" where
  "generateGameCode rnd existingCodes maxAttempts =
     generateGameCode_loop rnd existingCodes maxAttempts 0"

section \<open>Example states\<close>

text \<open>
  A Simon game in its second round: \<open>p1\<close> has entered the first colour, \<open>p2\<close> was
  eliminated in round 1.
\<close>

definition example_game :: SimonGameState where
  "example_game =
     \<lparr> simon_phase = player_input,
       sequence = [red, blue],
       simon_round = 2,
       playerStates =
         \<lparr> entries =
             [(''p1'', \<lparr> playerId = Val ''p1'', status = Val playing,
                        currentInputIndex = Val (Num 1), eliminatedAtRound = Null \<rparr>),
              (''p2'', \<lparr> playerId = Val ''p2'', status = Val eliminated,
                        currentInputIndex = Val (Num 0), eliminatedAtRound = Val 1 \<rparr>)],
           prototype = None \<rparr>,
       currentShowingIndex = 0,
       timeoutMs = 4750,
       winnerId = None \<rparr>"

text \<open>
  The same game with a per-input time limit below the minimum of 1500 ms, and the same
  game in round \<open>2^53\<close>.
\<close>

definition slow_game :: SimonGameState where
  "slow_game = example_game\<lparr> timeoutMs := 1000 \<rparr>"

definition late_game :: SimonGameState where
  "late_game = example_game\<lparr> simon_round := 9007199254740992 \<rparr>"

text \<open>
  A game of two players in which \<open>p1\<close> gives the first colour, \<open>p2\<close> is eliminated
  and the next round begins; the first colour drawn is \<open>COLORS[0]\<close>.
\<close>

definition played_game :: SimonGameState where
  "played_game =
     advanceToNextRound 1
       (eliminatePlayer
          (updatePlayerProgress (initializeSimonGame (\<lambda>_. 0) [''p1'', ''p2'']) ''p1'')
          ''p2'' 1)"

text \<open>Two states of a game: after \<open>p2\<close> is eliminated, and after the next round begins.\<close>

definition after_elimination :: SimonGameState where
  "after_elimination = eliminatePlayer (initializeSimonGame (\<lambda>_. 0) [''p1'', ''p2'']) ''p2'' 1"

definition after_advance :: SimonGameState where
  "after_advance = advanceToNextRound 2 after_elimination"

text \<open>
  Two games without a \<open>playing\<close> player: one with a tie at the highest round of
  elimination, one whose only player carries a negative round of elimination.
\<close>

definition all_out_game :: SimonGameState where
  "all_out_game =
     example_game\<lparr> playerStates :=
       \<lparr> entries =
           [(''p1'', \<lparr> playerId = Val ''p1'', status = Val eliminated,
                      currentInputIndex = Val (Num 0), eliminatedAtRound = Val 2 \<rparr>),
            (''p2'', \<lparr> playerId = Val ''p2'', status = Val eliminated,
                      currentInputIndex = Val (Num 1), eliminatedAtRound = Val 3 \<rparr>),
            (''p3'', \<lparr> playerId = Val ''p3'', status = Val eliminated,
                      currentInputIndex = Val (Num 2), eliminatedAtRound = Val 3 \<rparr>)],
         prototype = None \<rparr> \<rparr>"

definition negative_round_game :: SimonGameState where
  "negative_round_game =
     example_game\<lparr> playerStates :=
       \<lparr> entries =
           [(''p1'', \<lparr> playerId = Val ''p1'', status = Val eliminated,
                      currentInputIndex = Val (Num 0), eliminatedAtRound = Val (-1) \<rparr>)],
         prototype = None \<rparr> \<rparr>"

text \<open>
  A Color Race game in its first round of five, the answers of a round in which the
  earlier answer is wrong, the answers of a round with a wrong answer before all others
  and a tie at the lowest timestamp of the right ones, and a right answer of a player
  whose id is the name of a member of \<open>Object.prototype\<close>.
\<close>

definition race_game :: ColorRaceGameState where
  "race_game =
     \<lparr> race_phase = showing_color,
       currentColor = Some red,
       race_round = 1,
       totalRounds = 5,
       scores = [(''player-1'', Score 0), (''player-2'', Score 0)],
       roundWinner = None \<rparr>"

definition scenario_d :: "PlayerAnswer list" where
  "scenario_d =
     [\<lparr> answer_playerId = ''player-1'', answer_color = blue, timestamp = 500 \<rparr>,
      \<lparr> answer_playerId = ''player-2'', answer_color = red, timestamp = 1000 \<rparr>]"

definition tied_answers :: "PlayerAnswer list" where
  "tied_answers =
     [\<lparr> answer_playerId = ''player-1'', answer_color = red, timestamp = 1500 \<rparr>,
      \<lparr> answer_playerId = ''player-2'', answer_color = red, timestamp = 1000 \<rparr>,
      \<lparr> answer_playerId = ''player-1'', answer_color = blue, timestamp = 200 \<rparr>,
      \<lparr> answer_playerId = ''player-3'', answer_color = red, timestamp = 1000 \<rparr>]"

definition inherited_name_answers :: "PlayerAnswer list" where
  "inherited_name_answers =
     [\<lparr> answer_playerId = ''constructor'', answer_color = red, timestamp = 1000 \<rparr>]"

text \<open>
  The same game with the score \<open>2^53\<close> for \<open>player-2\<close>, in its last round, in round
  \<open>2^53\<close> of \<open>2^53 + 2\<close>, with a tie at the highest score, and with negative scores
  only.
\<close>

definition big_score_game :: ColorRaceGameState where
  "big_score_game =
     race_game\<lparr> scores := [(''player-1'', Score 0), (''player-2'', Score 9007199254740992)] \<rparr>"

definition last_round_game :: ColorRaceGameState where
  "last_round_game = race_game\<lparr> race_round := 5 \<rparr>"

definition late_race_game :: ColorRaceGameState where
  "late_race_game =
     race_game\<lparr> race_round := 9007199254740992, totalRounds := 9007199254740994 \<rparr>"

definition tied_scores_game :: ColorRaceGameState where
  "tied_scores_game =
     race_game\<lparr> scores := [(''player-1'', Score 2), (''player-2'', Score 2)] \<rparr>"

definition negative_scores_game :: ColorRaceGameState where
  "negative_scores_game =
     race_game\<lparr> scores := [(''player-1'', Score (-2)), (''player-2'', Score (-3))] \<rparr>"

text \<open>
  Draws for the game code: the first attempt draws index 0 six times, every later
  attempt draws the indices 0 to 5.
\<close>

definition example_draws :: "nat \<Rightarrow> nat \<Rightarrow> nat" where
  "example_draws attempt i = (if attempt = 0 then 0 else i)"

section \<open>Properties of numbers\<close>

lemma ulp_small: "a < 9007199254740992 \<Longrightarrow> ulp a = 1"
  by (subst ulp.simps) simp

lemma ulp_large: "\<not> a < 9007199254740992 \<Longrightarrow> ulp a = 2 * ulp (a div 2)"
  by (subst ulp.simps) simp

lemma ulp_pos: "0 < ulp a"
  by (induction a rule: ulp.induct) (subst ulp.simps, simp)

lemma ulp_dvd_mono: "a \<le> b \<Longrightarrow> ulp a dvd ulp b"
proof (induction b arbitrary: a rule: ulp.induct)
  case (1 b)
  show ?case
  proof (cases "b < 9007199254740992")
    case True
    with "1.prems" show ?thesis by (simp add: ulp_small)
  next
    case False
    show ?thesis
    proof (cases "a < 9007199254740992")
      case True
      then show ?thesis by (simp add: ulp_small)
    next
      case af: False
      from "1.prems" have "a div 2 \<le> b div 2" by (simp add: zdiv_mono1)
      with "1.IH" [OF False] have "ulp (a div 2) dvd ulp (b div 2)" by blast
      with False af show ?thesis by (simp add: ulp_large)
    qed
  qed
qed

lemma to_double_small: "\<bar>x\<bar> < 9007199254740992 \<Longrightarrow> to_double x = x"
  by (simp add: to_double_def ulp_small Let_def mult_sgn_abs)

lemma ulp_2_53: "ulp 9007199254740992 = 2"
  by (simp add: ulp_large ulp_small)

lemma to_double_exact: "\<bar>x\<bar> \<le> 9007199254740992 \<Longrightarrow> to_double x = x"
proof (cases "\<bar>x\<bar> < 9007199254740992")
  case True
  then show ?thesis by (rule to_double_small)
next
  case False
  assume "\<bar>x\<bar> \<le> 9007199254740992"
  with False have "x = 9007199254740992 \<or> x = - 9007199254740992" by auto
  then show ?thesis by (auto simp: to_double_def ulp_2_53 Let_def)
qed

lemma to_double_zero: "to_double 0 = 0"
  by (simp add: to_double_def)

lemma to_double_pos:
  "0 < x \<Longrightarrow> to_double x =
     (if 2 * (x mod ulp x) < ulp x then x div ulp x
      else if ulp x < 2 * (x mod ulp x) then x div ulp x + 1
      else if even (x div ulp x) then x div ulp x else x div ulp x + 1) * ulp x"
  by (simp add: to_double_def Let_def)

lemma to_double_le:
  assumes "0 \<le> x" and "x \<le> t" and "to_double t = t"
  shows "to_double x \<le> t"
proof (cases "x = 0")
  case True
  with assms show ?thesis by (simp add: to_double_zero)
next
  case False
  with assms have x: "0 < x" and t: "0 < t" by simp_all
  define u where "u = ulp x"
  define q where "q = x div u"
  define r where "r = x mod u"
  have u: "0 < u" unfolding u_def by (rule ulp_pos)
  have xqr: "x = q * u + r" unfolding q_def r_def by simp
  have r: "0 \<le> r" "r < u" unfolding r_def using u by simp_all
  from to_double_pos [OF t] assms(3) have "ulp t dvd t"
    by (metis dvd_triv_right)
  moreover from assms(2) have "u dvd ulp t" unfolding u_def by (rule ulp_dvd_mono)
  ultimately have "u dvd t" by (rule dvd_trans [rotated])
  then obtain m where m: "t = m * u" by (auto simp: dvd_def mult.commute)
  show ?thesis
  proof (cases "r = 0")
    case True
    then have "to_double x = q * u"
      using to_double_pos [OF x] u by (simp add: u_def [symmetric] q_def [symmetric] r_def [symmetric])
    with True xqr assms(2) show ?thesis by simp
  next
    case False
    with r have rpos: "0 < r" by simp
    have "to_double x \<le> (q + 1) * u"
      using to_double_pos [OF x] u
      by (auto simp: u_def [symmetric] q_def [symmetric] r_def [symmetric] mult_right_mono)
    moreover have "(q + 1) * u \<le> t"
    proof -
      from assms(2) xqr m rpos have "q * u < m * u" by simp
      with u have "q < m" by (simp add: mult_less_cancel_right)
      then have "q + 1 \<le> m" by simp
      with u show ?thesis unfolding m by (simp add: mult_right_mono)
    qed
    ultimately show ?thesis by simp
  qed
qed

lemma js_plus_exact: "\<bar>x + y\<bar> \<le> 9007199254740992 \<Longrightarrow> js_plus x y = x + y"
  by (simp add: js_plus_def to_double_exact)

lemma js_minus_exact: "\<bar>x - y\<bar> \<le> 9007199254740992 \<Longrightarrow> js_minus x y = x - y"
  by (simp add: js_minus_def to_double_exact)

section \<open>Properties of dictionaries\<close>

lemma map_of_obj_insert:
  "map_of ob k = None \<Longrightarrow> map_of (obj_insert k v ob) = (map_of ob)(k \<mapsto> v)"
  by (induction ob) (auto split: option.splits if_splits simp: fun_upd_twist)

lemma set_obj_insert: "set (obj_insert k v ob) = insert (k, v) (set ob)"
  by (induction ob) (auto split: option.splits if_splits)

lemma distinct_obj_insert:
  "k \<notin> fst ` set ob \<Longrightarrow> distinct (map fst ob) \<Longrightarrow> distinct (map fst (obj_insert k v ob))"
  by (induction ob) (auto split: option.splits simp: set_obj_insert)

lemma set_alist_update_subset: "set (AList.update k v ob) \<subseteq> insert (k, v) (set ob)"
  by (induction ob) auto

lemma map_of_entries_js_set:
  "map_of (entries (js_set k v ob)) =
     (if map_of (entries ob) k = None \<and> k = ''__proto__'' then map_of (entries ob)
      else (map_of (entries ob))(k \<mapsto> v))"
  by (auto simp: js_set_def map_of_obj_insert update_conv')

lemma prototype_js_set:
  "prototype (js_set k v ob) =
     (if map_of (entries ob) k = None \<and> k = ''__proto__'' then Some v else prototype ob)"
  by (auto simp: js_set_def)

lemma set_entries_js_set: "set (entries (js_set k v ob)) \<subseteq> insert (k, v) (set (entries ob))"
  using set_alist_update_subset [of k v "entries ob"]
  by (auto simp: js_set_def set_obj_insert)

lemma keys_js_set:
  "fst ` set (entries (js_set k v ob)) =
     (if map_of (entries ob) k = None \<and> k = ''__proto__'' then fst ` set (entries ob)
      else insert k (fst ` set (entries ob)))"
  by (auto simp: js_set_def set_obj_insert dom_update)

lemma distinct_js_set:
  "distinct (map fst (entries ob)) \<Longrightarrow> distinct (map fst (entries (js_set k v ob)))"
  by (simp add: js_set_def distinct_obj_insert distinct_update map_of_eq_None_iff)

lemma values_js_set:
  "x \<in> set (obj_values (entries (js_set k v ob))) \<Longrightarrow>
     x = v \<or> x \<in> set (obj_values (entries ob))"
  using set_entries_js_set [of k v ob] by (auto simp: obj_values_def)

lemma obj_values_map_of: "map_of ob k = Some v \<Longrightarrow> v \<in> set (obj_values ob)"
  by (force simp: obj_values_def dest: map_of_SomeD)

lemma js_get_spread:
  "js_get (spread ob) k =
     (case map_of (entries ob) k of Some st \<Rightarrow> Value st | None \<Rightarrow> plain_get [] k)"
  by (simp add: js_get_def spread_def split: option.splits)

lemma plain_get_empty_cases:
  "plain_get [] k = Builtin \<or> plain_get [] k = Missing"
  by (simp add: plain_get_def)

lemma js_get_Value:
  "js_get ob k = Value st \<longleftrightarrow>
     map_of (entries ob) k = Some st
     \<or> (map_of (entries ob) k = None \<and> k = ''__proto__'' \<and> prototype ob = Some st
        \<and> \<not> has_property st k)"
  by (auto simp: js_get_def plain_get_def split: option.splits)

lemma has_property_proto [simp]: "\<not> has_property st ''__proto__''"
  by (simp add: has_property_def)

section \<open>The first of the highest\<close>

text \<open>
  The loops that pick a winner keep the first element with the highest key. Such an
  element exists as soon as one key lies above the initial value \<open>m\<close> of the loop:
  the list splits into the elements before it, all with lower keys, the element itself,
  and the elements after it, none with a higher key.
\<close>

lemma first_highest_exists:
  fixes k :: "'a \<Rightarrow> int option"
  assumes "\<exists>a \<in> set xs. \<exists>r. k a = Some r \<and> m < r"
  shows "\<exists>pre w post r. xs = pre @ w # post \<and> k w = Some r \<and> m < r
           \<and> (\<forall>a \<in> set pre. \<forall>r'. k a = Some r' \<longrightarrow> r' < r)
           \<and> (\<forall>a \<in> set post. \<forall>r'. k a = Some r' \<longrightarrow> r' \<le> r)"
  using assms
proof (induction xs)
  case Nil
  then show ?case by simp
next
  case (Cons x xs)
  show ?case
  proof (cases "\<exists>a \<in> set xs. \<exists>r. k a = Some r \<and> m < r")
    case False
    with Cons.prems obtain rx where rx: "k x = Some rx" "m < rx" by auto
    from False rx have "\<forall>a \<in> set xs. \<forall>r'. k a = Some r' \<longrightarrow> r' \<le> rx" by fastforce
    with rx show ?thesis by (intro exI [of _ "[]"] exI [of _ x] exI [of _ xs] exI [of _ rx]) simp
  next
    case True
    from Cons.IH [OF True] obtain pre w post r where d: "xs = pre @ w # post"
      and w: "k w = Some r" "m < r"
      and pre: "\<forall>a \<in> set pre. \<forall>r'. k a = Some r' \<longrightarrow> r' < r"
      and post: "\<forall>a \<in> set post. \<forall>r'. k a = Some r' \<longrightarrow> r' \<le> r"
      by blast
    show ?thesis
    proof (cases "\<exists>rx. k x = Some rx \<and> r \<le> rx")
      case True
      then obtain rx where rx: "k x = Some rx" "r \<le> rx" by blast
      have "\<forall>a \<in> set xs. \<forall>r'. k a = Some r' \<longrightarrow> r' \<le> rx"
        using d w pre post rx(2) by fastforce
      with rx w show ?thesis
        by (intro exI [of _ "[]"] exI [of _ x] exI [of _ xs] exI [of _ rx]) simp
    next
      case False
      then have "\<forall>r'. k x = Some r' \<longrightarrow> r' < r" by auto
      with d w pre post show ?thesis
        by (intro exI [of _ "x # pre"] exI [of _ w] exI [of _ post] exI [of _ r]) simp
    qed
  qed
qed

section \<open>Input validation\<close>


lemma js_index_bound: "js_index xs i = Some c \<Longrightarrow> 0 \<le> i \<and> i < 4294967295 \<and> i < int (length xs)"
  by (simp add: js_index_def split: if_splits)

lemma plus_one_index: "0 \<le> i \<Longrightarrow> i < 4294967295 \<Longrightarrow> plus_one (Val (Num i)) = Num (i + 1)"
  by (simp add: plus_one_def js_plus_exact)

text \<open>
  Claim C8. When \<open>validateInput(s, p, c, i)\<close> holds and \<open>s'\<close> is
  \<open>updatePlayerProgress(s, p)\<close>, the same input is rejected in \<open>s'\<close>; a caller that
  applies \<open>updatePlayerProgress\<close> only to accepted inputs therefore leaves \<open>s'\<close> as it
  is on the second submission.
\<close>

theorem resubmit_rejected:
  assumes "validateInput s p c i"
  shows "\<not> validateInput (updatePlayerProgress s p) p c i
      \<and> (if validateInput (updatePlayerProgress s p) p c i
           then updatePlayerProgress (updatePlayerProgress s p) p
           else updatePlayerProgress s p) = updatePlayerProgress s p"
proof -
  from assms obtain st where st: "js_get (playerStates s) p = Value st"
    and i: "currentInputIndex st = Val (Num i)" and c: "js_index (sequence s) i = Some c"
    by (auto simp: validateInput_def split: slot.splits if_splits)
  from js_index_bound [OF c] have b: "0 \<le> i" "i < 4294967295" by simp_all
  have "\<not> validateInput (updatePlayerProgress s p) p c i"
  proof (cases "map_of (entries (playerStates s)) p")
    case (Some st')
    with st have [simp]: "st' = st" by (simp add: js_get_def)
    show ?thesis
      using Some i b
      by (simp add: validateInput_def updatePlayerProgress_def js_get_spread js_get_def
          map_of_entries_js_set plus_one_index spread_def)
  next
    case None
    with st have p: "p = ''__proto__''"
      by (auto simp: js_get_Value)
    show ?thesis
      using None p
      by (simp add: validateInput_def updatePlayerProgress_def js_get_spread js_get_def
          map_of_entries_js_set prototype_js_set plain_get_def spread_def plus_one_def
          no_properties_def has_property_def)
  qed
  then show ?thesis by simp
qed

theorem resubmit_rejected_witness:
  "validateInput example_game ''p1'' blue 1
   \<and> \<not> validateInput (updatePlayerProgress example_game ''p1'') ''p1'' blue 1"
proof -
  have ok: "validateInput example_game ''p1'' blue 1"
    by code_simp
  from resubmit_rejected [OF ok] ok show ?thesis by simp
qed

section \<open>Operations on an unknown player\<close>

text \<open>
  An id that is no key of the dictionary and no name of a member of \<open>Object.prototype\<close>
  reads as \<open>undefined\<close>, and both operations return the state as it is.
\<close>

lemma absent_player_noop:
  assumes "js_get (playerStates s) p = Missing" and "prototype (playerStates s) = None"
  shows "eliminatePlayer s p r = s" and "updatePlayerProgress s p = s"
proof -
  from assms(2) have sp: "spread (playerStates s) = playerStates s"
    by (simp add: spread_def)
  from assms show "eliminatePlayer s p r = s" and "updatePlayerProgress s p = s"
    by (simp_all add: eliminatePlayer_def updatePlayerProgress_def sp)
qed

text \<open>
  Claim C10 says that \<open>eliminatePlayer(s, p, r)\<close> and \<open>updatePlayerProgress(s, p)\<close>
  return \<open>s\<close> when \<open>p\<close> is not a key of \<open>s.playerStates\<close>. The test
  \<open>if (updatedPlayerStates[playerId])\<close> of both functions succeeds also for an id
  that is no key and is the name of a member of \<open>Object.prototype\<close>. In \<open>example_game\<close>
  the id \<open>constructor\<close> is not a key; \<open>eliminatePlayer\<close> appends an entry under that
  key which has a status and a round only, \<open>updatePlayerProgress\<close> appends one whose
  only property is the \<open>currentInputIndex\<close> \<open>NaN\<close>, and neither returns the state that
  it was given.
\<close>

theorem unknown_player_not_noop:
  "map_of (entries (playerStates example_game)) ''constructor'' = None
   \<and> entries (playerStates (eliminatePlayer example_game ''constructor'' 2))
       = entries (playerStates example_game)
         @ [(''constructor'',
             \<lparr> playerId = Undefined, status = Val eliminated, currentInputIndex = Undefined,
               eliminatedAtRound = Val 2 \<rparr>)]
   \<and> eliminatePlayer example_game ''constructor'' 2 \<noteq> example_game
   \<and> entries (playerStates (updatePlayerProgress example_game ''constructor''))
       = entries (playerStates example_game)
         @ [(''constructor'',
             \<lparr> playerId = Undefined, status = Undefined, currentInputIndex = Val NaN,
               eliminatedAtRound = Undefined \<rparr>)]
   \<and> updatePlayerProgress example_game ''constructor'' \<noteq> example_game"
proof -
  have a: "map_of (entries (playerStates example_game)) ''constructor'' = None"
    by (simp add: example_game_def)
  have b: "entries (playerStates (eliminatePlayer example_game ''constructor'' 2))
       = entries (playerStates example_game)
         @ [(''constructor'',
             \<lparr> playerId = Undefined, status = Val eliminated, currentInputIndex = Undefined,
               eliminatedAtRound = Val 2 \<rparr>)]"
    by code_simp
  have c: "entries (playerStates (updatePlayerProgress example_game ''constructor''))
       = entries (playerStates example_game)
         @ [(''constructor'',
             \<lparr> playerId = Undefined, status = Undefined, currentInputIndex = Val NaN,
               eliminatedAtRound = Undefined \<rparr>)]"
    by code_simp
  from b have "eliminatePlayer example_game ''constructor'' 2 \<noteq> example_game" by auto
  moreover from c have "updatePlayerProgress example_game ''constructor'' \<noteq> example_game" by auto
  ultimately show ?thesis using a b c by blast
qed

section \<open>Round advancement\<close>

lemma set_entries_rebuild:
  "set (entries (foldl (\<lambda>ob (pid, st). js_set pid (f st) ob) acc xs))
     \<subseteq> set (entries acc) \<union> (\<lambda>(pid, st). (pid, f st)) ` set xs"
proof (induction xs arbitrary: acc)
  case Nil
  show ?case by simp
next
  case (Cons x xs)
  obtain pid st where x: "x = (pid, st)" by (cases x)
  have "set (entries (foldl (\<lambda>ob (pid, st). js_set pid (f st) ob) (js_set pid (f st) acc) xs))
          \<subseteq> set (entries (js_set pid (f st) acc)) \<union> (\<lambda>(pid, st). (pid, f st)) ` set xs"
    by (rule Cons.IH)
  with set_entries_js_set [of pid "f st" acc] show ?case
    unfolding x by auto
qed

lemma distinct_rebuild:
  "distinct (map fst (entries acc)) \<Longrightarrow>
     distinct (map fst (entries (foldl (\<lambda>ob (pid, st). js_set pid (f st) ob) acc xs)))"
  by (induction xs arbitrary: acc) (auto simp: distinct_js_set)

lemma no_own_proto_js_set:
  "map_of (entries ob) ''__proto__'' = None \<Longrightarrow>
     map_of (entries (js_set k v ob)) ''__proto__'' = None"
  by (auto simp: map_of_entries_js_set)

lemma no_own_proto_rebuild:
  "map_of (entries acc) ''__proto__'' = None \<Longrightarrow>
     map_of (entries (foldl (\<lambda>ob (pid, st). js_set pid (f st) ob) acc xs)) ''__proto__'' = None"
  by (induction xs arbitrary: acc) (auto simp: no_own_proto_js_set)

lemma map_of_rebuild:
  assumes "distinct (map fst xs)" and "map_of (entries acc) ''__proto__'' = None"
    and "p \<noteq> ''__proto__''"
  shows "map_of (entries (foldl (\<lambda>ob (pid, st). js_set pid (f st) ob) acc xs)) p =
           (case map_of xs p of None \<Rightarrow> map_of (entries acc) p | Some st \<Rightarrow> Some (f st))"
  using assms(1,2)
proof (induction xs arbitrary: acc)
  case Nil
  show ?case by simp
next
  case (Cons x xs)
  obtain pid st where x: "x = (pid, st)" by (cases x)
  from Cons.prems have d: "distinct (map fst xs)" and fresh: "map_of xs pid = None"
    by (auto simp: x map_of_eq_None_iff)
  from Cons.prems(2) have np: "map_of (entries (js_set pid (f st) acc)) ''__proto__'' = None"
    by (rule no_own_proto_js_set)
  show ?case
    using Cons.IH [OF d np] fresh assms(3) Cons.prems(2)
    by (auto simp: x map_of_entries_js_set split: option.splits)
qed

lemma prototype_rebuild:
  assumes "distinct (map fst xs)" and "map_of (entries acc) ''__proto__'' = None"
  shows "prototype (foldl (\<lambda>ob (pid, st). js_set pid (f st) ob) acc xs) =
           (case map_of xs ''__proto__'' of None \<Rightarrow> prototype acc | Some st \<Rightarrow> Some (f st))"
  using assms
proof (induction xs arbitrary: acc)
  case Nil
  show ?case by simp
next
  case (Cons x xs)
  obtain pid st where x: "x = (pid, st)" by (cases x)
  from Cons.prems have d: "distinct (map fst xs)" and fresh: "map_of xs pid = None"
    by (auto simp: x map_of_eq_None_iff)
  from Cons.prems(2) have np: "map_of (entries (js_set pid (f st) acc)) ''__proto__'' = None"
    by (rule no_own_proto_js_set)
  show ?case
    using Cons.IH [OF d np] fresh Cons.prems(2)
    by (auto simp: x prototype_js_set split: option.splits)
qed

lemma advance_fields:
  "sequence (advanceToNextRound ri s) = sequence s @ [COLORS ! ri]"
  "simon_round (advanceToNextRound ri s) = to_double (simon_round s + 1)"
  "timeoutMs (advanceToNextRound ri s) = max 1500 (to_double (timeoutMs s - 250))"
  "simon_phase (advanceToNextRound ri s) = showing_sequence"
  "playerStates (advanceToNextRound ri s) =
     foldl (\<lambda>ob (pid, st). js_set pid (st\<lparr>currentInputIndex := Val (Num 0)\<rparr>) ob)
       empty_object (entries (playerStates s))"
  by (simp_all add: advanceToNextRound_def extendSequence_def MIN_TIMEOUT_MS_def
      TIMEOUT_DECREMENT_MS_def js_plus_def js_minus_def)

lemma advance_indices:
  "\<forall>st \<in> set (obj_values (entries (playerStates (advanceToNextRound ri s)))).
     currentInputIndex st = Val (Num 0)"
  using set_entries_rebuild [of "\<lambda>st. st\<lparr>currentInputIndex := Val (Num 0)\<rparr>" empty_object
      "entries (playerStates s)"]
  by (auto simp: advance_fields obj_values_def empty_object_def)

lemma advance_timeout_le:
  assumes "1500 \<le> timeoutMs s" and "to_double (timeoutMs s) = timeoutMs s"
  shows "timeoutMs (advanceToNextRound ri s) \<le> timeoutMs s"
proof -
  from assms(1) have "0 \<le> timeoutMs s - 250" and "timeoutMs s - 250 \<le> timeoutMs s"
    by simp_all
  then have "to_double (timeoutMs s - 250) \<le> timeoutMs s"
    using assms(2) by (rule to_double_le)
  with assms(1) show ?thesis by (simp add: advance_fields)
qed

lemma advance_players:
  assumes "distinct (obj_keys (entries (playerStates s)))"
  shows "\<forall>p. p \<noteq> ''__proto__'' \<longrightarrow>
           map_of (entries (playerStates (advanceToNextRound ri s))) p
             = map_option (\<lambda>st. st\<lparr>currentInputIndex := Val (Num 0)\<rparr>)
                 (map_of (entries (playerStates s)) p)"
    and "map_of (entries (playerStates (advanceToNextRound ri s))) ''__proto__'' = None"
    and "prototype (playerStates (advanceToNextRound ri s))
           = map_option (\<lambda>st. st\<lparr>currentInputIndex := Val (Num 0)\<rparr>)
               (map_of (entries (playerStates s)) ''__proto__'')"
proof -
  from assms have d: "distinct (map fst (entries (playerStates s)))"
    by (simp add: obj_keys_def)
  have e: "map_of (entries empty_object) ''__proto__'' = None"
    by (simp add: empty_object_def)
  show "\<forall>p. p \<noteq> ''__proto__'' \<longrightarrow>
           map_of (entries (playerStates (advanceToNextRound ri s))) p
             = map_option (\<lambda>st. st\<lparr>currentInputIndex := Val (Num 0)\<rparr>)
                 (map_of (entries (playerStates s)) p)"
    using map_of_rebuild [OF d e]
    by (auto simp: advance_fields empty_object_def split: option.splits)
  show "map_of (entries (playerStates (advanceToNextRound ri s))) ''__proto__'' = None"
    using no_own_proto_rebuild [OF e] by (simp add: advance_fields)
  show "prototype (playerStates (advanceToNextRound ri s))
           = map_option (\<lambda>st. st\<lparr>currentInputIndex := Val (Num 0)\<rparr>)
               (map_of (entries (playerStates s)) ''__proto__'')"
    using prototype_rebuild [OF d e]
    by (auto simp: advance_fields empty_object_def split: option.splits)
qed

text \<open>
  Claim C5, as the code has it. \<open>advanceToNextRound(s)\<close> returns a state whose sequence
  is \<open>s.sequence\<close> followed by one more colour; whose round is the double nearest to
  \<open>s.round + 1\<close>, which is \<open>s.round + 1\<close> when \<open>s.round\<close> is below \<open>2^53\<close> in
  magnitude; whose \<open>timeoutMs\<close> is the larger of 1500 and the double nearest to
  \<open>s.timeoutMs - 250\<close>, so never below 1500, and not larger than \<open>s.timeoutMs\<close> when
  that is a double of at least 1500; whose players are those of \<open>s\<close>, each with
  \<open>currentInputIndex\<close> 0 and otherwise as in \<open>s\<close>; and whose phase is
  \<open>showing_sequence\<close>. The players are the own properties of \<open>s.playerStates\<close>, each
  key once: every key other than \<open>__proto__\<close> has in the new dictionary the player
  state of \<open>s\<close> with the index reset, and a key that \<open>s\<close> does not have is not added;
  the player state of an own key \<open>__proto__\<close> becomes the prototype of the new
  dictionary.
\<close>

theorem advance_shape:
  "length (sequence (advanceToNextRound ri s)) = length (sequence s) + 1
   \<and> take (length (sequence s)) (sequence (advanceToNextRound ri s)) = sequence s
   \<and> simon_round (advanceToNextRound ri s) = to_double (simon_round s + 1)
   \<and> (\<bar>simon_round s\<bar> < 9007199254740992 \<longrightarrow>
        simon_round (advanceToNextRound ri s) = simon_round s + 1)
   \<and> timeoutMs (advanceToNextRound ri s) = max 1500 (to_double (timeoutMs s - 250))
   \<and> (\<bar>timeoutMs s - 250\<bar> \<le> 9007199254740992 \<longrightarrow>
        timeoutMs (advanceToNextRound ri s) = max 1500 (timeoutMs s - 250))
   \<and> 1500 \<le> timeoutMs (advanceToNextRound ri s)
   \<and> (1500 \<le> timeoutMs s \<and> to_double (timeoutMs s) = timeoutMs s \<longrightarrow>
        timeoutMs (advanceToNextRound ri s) \<le> timeoutMs s)
   \<and> (distinct (obj_keys (entries (playerStates s))) \<longrightarrow>
        (\<forall>p. p \<noteq> ''__proto__'' \<longrightarrow>
           map_of (entries (playerStates (advanceToNextRound ri s))) p
             = map_option (\<lambda>st. st\<lparr>currentInputIndex := Val (Num 0)\<rparr>)
                 (map_of (entries (playerStates s)) p))
        \<and> map_of (entries (playerStates (advanceToNextRound ri s))) ''__proto__'' = None
        \<and> prototype (playerStates (advanceToNextRound ri s))
            = map_option (\<lambda>st. st\<lparr>currentInputIndex := Val (Num 0)\<rparr>)
                (map_of (entries (playerStates s)) ''__proto__''))
   \<and> (\<forall>st \<in> set (obj_values (entries (playerStates (advanceToNextRound ri s)))).
         currentInputIndex st = Val (Num 0))
   \<and> simon_phase (advanceToNextRound ri s) = showing_sequence"
proof -
  have r: "\<bar>simon_round s\<bar> < 9007199254740992 \<longrightarrow>
        simon_round (advanceToNextRound ri s) = simon_round s + 1"
    by (simp add: advance_fields to_double_exact)
  have t: "\<bar>timeoutMs s - 250\<bar> \<le> 9007199254740992 \<longrightarrow>
        timeoutMs (advanceToNextRound ri s) = max 1500 (timeoutMs s - 250)"
    by (simp add: advance_fields to_double_exact)
  have f: "1500 \<le> timeoutMs (advanceToNextRound ri s)"
    by (simp add: advance_fields)
  have m: "1500 \<le> timeoutMs s \<and> to_double (timeoutMs s) = timeoutMs s \<longrightarrow>
        timeoutMs (advanceToNextRound ri s) \<le> timeoutMs s"
    using advance_timeout_le [of s ri] by blast
  have p: "distinct (obj_keys (entries (playerStates s))) \<longrightarrow>
        (\<forall>p. p \<noteq> ''__proto__'' \<longrightarrow>
           map_of (entries (playerStates (advanceToNextRound ri s))) p
             = map_option (\<lambda>st. st\<lparr>currentInputIndex := Val (Num 0)\<rparr>)
                 (map_of (entries (playerStates s)) p))
        \<and> map_of (entries (playerStates (advanceToNextRound ri s))) ''__proto__'' = None
        \<and> prototype (playerStates (advanceToNextRound ri s))
            = map_option (\<lambda>st. st\<lparr>currentInputIndex := Val (Num 0)\<rparr>)
                (map_of (entries (playerStates s)) ''__proto__'')"
    using advance_players [of s ri] by blast
  from r t f m p advance_indices [of ri s] show ?thesis
    by (simp add: advance_fields(1-4))
qed

theorem advance_shape_witness:
  "\<bar>simon_round example_game\<bar> < 9007199254740992
   \<and> simon_round (advanceToNextRound 3 example_game) = 3
   \<and> \<bar>timeoutMs example_game - 250\<bar> \<le> 9007199254740992
   \<and> 1500 \<le> timeoutMs example_game
   \<and> to_double (timeoutMs example_game) = timeoutMs example_game
   \<and> timeoutMs (advanceToNextRound 3 example_game) \<le> timeoutMs example_game
   \<and> timeoutMs (advanceToNextRound 3 example_game) = 4500
   \<and> distinct (obj_keys (entries (playerStates example_game)))
   \<and> map_of (entries (playerStates (advanceToNextRound 3 example_game))) ''p1''
       = Some \<lparr> playerId = Val ''p1'', status = Val playing, currentInputIndex = Val (Num 0),
                eliminatedAtRound = Null \<rparr>
   \<and> map_of (entries (playerStates (advanceToNextRound 3 example_game))) ''p3'' = None
   \<and> prototype (playerStates (advanceToNextRound 3 example_game)) = None
   \<and> map currentInputIndex (obj_values (entries (playerStates (advanceToNextRound 3 example_game))))
       = [Val (Num 0), Val (Num 0)]
   \<and> sequence (advanceToNextRound 3 example_game) = [red, blue, green]"
proof -
  have rd: "\<bar>simon_round example_game\<bar> < 9007199254740992" "simon_round example_game = 2"
    by (simp_all add: example_game_def)
  have tm: "\<bar>timeoutMs example_game - 250\<bar> \<le> 9007199254740992"
    "1500 \<le> timeoutMs example_game" "timeoutMs example_game = 4750"
    by (simp_all add: example_game_def)
  have dbl: "to_double (timeoutMs example_game) = timeoutMs example_game"
    by (simp add: example_game_def to_double_exact)
  have d: "distinct (obj_keys (entries (playerStates example_game)))"
    by (simp add: example_game_def obj_keys_def)
  have old: "map_of (entries (playerStates example_game)) ''p1''
      = Some \<lparr> playerId = Val ''p1'', status = Val playing, currentInputIndex = Val (Num 1),
               eliminatedAtRound = Null \<rparr>"
    "map_of (entries (playerStates example_game)) ''p3'' = None"
    "map_of (entries (playerStates example_game)) ''__proto__'' = None"
    by (simp_all add: example_game_def)
  have sq: "sequence (advanceToNextRound 3 example_game) = [red, blue, green]"
    by (simp add: advance_fields example_game_def COLORS_def)
  note shape = advance_shape [of 3 example_game]
  from shape rd have r: "simon_round (advanceToNextRound 3 example_game) = 3"
    by simp
  from shape tm have t: "timeoutMs (advanceToNextRound 3 example_game) = 4500"
    by simp
  from shape tm dbl have le: "timeoutMs (advanceToNextRound 3 example_game)
      \<le> timeoutMs example_game"
    by blast
  from shape d have players: "\<forall>p. p \<noteq> ''__proto__'' \<longrightarrow>
           map_of (entries (playerStates (advanceToNextRound 3 example_game))) p
             = map_option (\<lambda>st. st\<lparr>currentInputIndex := Val (Num 0)\<rparr>)
                 (map_of (entries (playerStates example_game)) p)"
    and pr: "prototype (playerStates (advanceToNextRound 3 example_game))
            = map_option (\<lambda>st. st\<lparr>currentInputIndex := Val (Num 0)\<rparr>)
                (map_of (entries (playerStates example_game)) ''__proto__'')"
    by blast+
  from players old(1) have p1: "map_of (entries (playerStates (advanceToNextRound 3 example_game)))
      ''p1'' = Some \<lparr> playerId = Val ''p1'', status = Val playing,
                       currentInputIndex = Val (Num 0), eliminatedAtRound = Null \<rparr>"
    by simp
  from players old(2) have p3: "map_of (entries (playerStates (advanceToNextRound 3 example_game)))
      ''p3'' = None"
    by simp
  from pr old(3) have pn: "prototype (playerStates (advanceToNextRound 3 example_game)) = None"
    by simp
  have "length (obj_values (entries (playerStates (advanceToNextRound 3 example_game)))) = 2"
    by code_simp
  moreover from shape
  have "\<forall>st \<in> set (obj_values (entries (playerStates (advanceToNextRound 3 example_game)))).
          currentInputIndex st = Val (Num 0)"
    by blast
  ultimately
  have ix: "map currentInputIndex
              (obj_values (entries (playerStates (advanceToNextRound 3 example_game))))
      = [Val (Num 0), Val (Num 0)]"
    by (auto simp: length_Suc_conv numeral_2_eq_2)
  from rd(1) r tm(1,2) dbl le t d p1 p3 pn ix sq show ?thesis by blast
qed

text \<open>
  The claim as stated also says that the new \<open>timeoutMs\<close> is never larger than the old
  one, and that the new round is \<open>s.round + 1\<close>. A \<open>timeoutMs\<close> below the minimum is
  raised to it, and the round \<open>2^53\<close> stays as it is, because \<open>2^53 + 1\<close> is no double
  and the nearest double with an even quotient is \<open>2^53\<close>.
\<close>

theorem advance_counterexample:
  "timeoutMs slow_game = 1000
   \<and> timeoutMs (advanceToNextRound 3 slow_game) = 1500
   \<and> simon_round late_game = 9007199254740992
   \<and> simon_round (advanceToNextRound 3 late_game) = 9007199254740992"
  by code_simp

section \<open>Sequence length and progress\<close>

lemma set_entries_initial:
  "set (entries (foldl (\<lambda>ob pid. js_set pid (g pid) ob) acc players))
     \<subseteq> set (entries acc) \<union> (\<lambda>pid. (pid, g pid)) ` set players"
proof (induction players arbitrary: acc)
  case Nil
  show ?case by simp
next
  case (Cons pid players)
  have "set (entries (foldl (\<lambda>ob pid. js_set pid (g pid) ob) (js_set pid (g pid) acc) players))
          \<subseteq> set (entries (js_set pid (g pid) acc)) \<union> (\<lambda>pid. (pid, g pid)) ` set players"
    by (rule Cons.IH)
  with set_entries_js_set [of pid "g pid" acc] show ?case by auto
qed

lemma prototype_initial:
  "prototype (foldl (\<lambda>ob pid. js_set pid (g pid) ob) acc players) = Some x \<Longrightarrow>
     prototype acc = Some x \<or> x \<in> g ` set players"
proof (induction players arbitrary: acc)
  case Nil
  then show ?case by simp
next
  case (Cons pid players)
  from Cons.prems have "prototype (foldl (\<lambda>ob pid. js_set pid (g pid) ob)
      (js_set pid (g pid) acc) players) = Some x" by simp
  from Cons.IH [OF this] show ?case
    by (auto simp: prototype_js_set split: if_splits)
qed

text \<open>What the operations on one player leave in the dictionary.\<close>

lemma progress_fields:
  "sequence (updatePlayerProgress s p) = sequence s"
  "simon_round (updatePlayerProgress s p) = simon_round s"
  "timeoutMs (updatePlayerProgress s p) = timeoutMs s"
  by (simp_all add: updatePlayerProgress_def Let_def)

lemma eliminate_fields:
  "sequence (eliminatePlayer s p r) = sequence s"
  "simon_round (eliminatePlayer s p r) = simon_round s"
  "timeoutMs (eliminatePlayer s p r) = timeoutMs s"
  by (simp_all add: eliminatePlayer_def Let_def)

lemma progress_playerStates:
  "playerStates (updatePlayerProgress s p) =
     (case map_of (entries (playerStates s)) p of
        Some st \<Rightarrow>
          js_set p (st\<lparr>currentInputIndex := Val (plus_one (currentInputIndex st))\<rparr>)
            (spread (playerStates s))
      | None \<Rightarrow>
          if p = ''__proto__'' \<or> p \<in> set OBJECT_PROTOTYPE_FUNCTIONS
          then js_set p (no_properties\<lparr>currentInputIndex := Val NaN\<rparr>) (spread (playerStates s))
          else spread (playerStates s))"
  by (auto simp: updatePlayerProgress_def Let_def js_get_spread plus_one_def plain_get_def
      split: option.splits)

lemma eliminate_playerStates:
  "playerStates (eliminatePlayer s p r) =
     (case map_of (entries (playerStates s)) p of
        Some st \<Rightarrow>
          js_set p (st\<lparr>status := Val eliminated, eliminatedAtRound := Val r\<rparr>)
            (spread (playerStates s))
      | None \<Rightarrow>
          if p = ''__proto__'' \<or> p \<in> set OBJECT_PROTOTYPE_FUNCTIONS
          then js_set p (no_properties\<lparr>status := Val eliminated, eliminatedAtRound := Val r\<rparr>)
                 (spread (playerStates s))
          else spread (playerStates s))"
  by (auto simp: eliminatePlayer_def Let_def js_get_spread plain_get_def split: option.splits)

lemma entries_spread [simp]: "entries (spread ob) = entries ob"
  by (simp add: spread_def)

lemma prototype_spread [simp]: "prototype (spread ob) = None"
  by (simp add: spread_def)

lemma progress_values:
  assumes "x \<in> set (obj_values (entries (playerStates (updatePlayerProgress s p))))"
  shows "x \<in> set (obj_values (entries (playerStates s)))
       \<or> (\<exists>st. map_of (entries (playerStates s)) p = Some st
             \<and> x = st\<lparr>currentInputIndex := Val (plus_one (currentInputIndex st))\<rparr>)
       \<or> (map_of (entries (playerStates s)) p = None \<and> p \<noteq> ''__proto__''
             \<and> x = no_properties\<lparr>currentInputIndex := Val NaN\<rparr>)"
proof (cases "map_of (entries (playerStates s)) p")
  case (Some st)
  with assms show ?thesis
    by (auto simp: progress_playerStates dest!: values_js_set)
next
  case None
  show ?thesis
  proof (cases "p = ''__proto__''")
    case True
    with None assms show ?thesis
      by (auto simp: progress_playerStates js_set_def split: if_splits)
  next
    case False
    with None assms show ?thesis
      by (auto simp: progress_playerStates split: if_splits dest!: values_js_set)
  qed
qed

lemma progress_prototype:
  assumes "prototype (playerStates (updatePlayerProgress s p)) = Some x"
  shows "x = no_properties\<lparr>currentInputIndex := Val NaN\<rparr>"
  using assms
  by (auto simp: progress_playerStates prototype_js_set split: option.splits if_splits)

lemma eliminate_values:
  assumes "x \<in> set (obj_values (entries (playerStates (eliminatePlayer s p r))))"
  shows "x \<in> set (obj_values (entries (playerStates s)))
       \<or> (\<exists>st. map_of (entries (playerStates s)) p = Some st
             \<and> x = st\<lparr>status := Val eliminated, eliminatedAtRound := Val r\<rparr>)
       \<or> (map_of (entries (playerStates s)) p = None
             \<and> x = no_properties\<lparr>status := Val eliminated, eliminatedAtRound := Val r\<rparr>)"
proof (cases "map_of (entries (playerStates s)) p")
  case (Some st)
  with assms show ?thesis
    by (auto simp: eliminate_playerStates dest!: values_js_set)
next
  case None
  with assms show ?thesis
    by (auto simp: eliminate_playerStates split: if_splits dest!: values_js_set)
qed

lemma eliminate_prototype:
  assumes "prototype (playerStates (eliminatePlayer s p r)) = Some x"
  shows "x = no_properties\<lparr>status := Val eliminated, eliminatedAtRound := Val r\<rparr>"
  using assms
  by (auto simp: eliminate_playerStates prototype_js_set split: option.splits if_splits)

lemma advance_prototype:
  assumes "prototype (playerStates (advanceToNextRound ri s)) = Some x"
  shows "currentInputIndex x = Val (Num 0)"
proof -
  have "prototype (foldl (\<lambda>ob (pid, st). js_set pid (f st) ob) acc xs) = Some x \<Longrightarrow>
          prototype acc = Some x \<or> x \<in> f ` snd ` set xs" for f acc xs
  proof (induction xs arbitrary: acc)
    case Nil
    then show ?case by simp
  next
    case (Cons y xs)
    obtain pid st where y: "y = (pid, st)" by (cases y)
    from Cons.prems have "prototype (foldl (\<lambda>ob (pid, st). js_set pid (f st) ob)
        (js_set pid (f st) acc) xs) = Some x" by (simp add: y)
    from Cons.IH [OF this] show ?case
      by (auto simp: y prototype_js_set split: if_splits)
  qed
  from this [of "\<lambda>st. st\<lparr>currentInputIndex := Val (Num 0)\<rparr>" empty_object
      "entries (playerStates s)"] assms
  show ?thesis by (auto simp: advance_fields empty_object_def)
qed

lemma validated_player:
  assumes "validateInput s p c i"
  shows "0 \<le> i \<and> i < 4294967295 \<and> i < int (length (sequence s))
       \<and> (case map_of (entries (playerStates s)) p of
             Some st \<Rightarrow> currentInputIndex st = Val (Num i)
           | None \<Rightarrow> p = ''__proto__'')"
proof -
  from assms obtain st where st: "js_get (playerStates s) p = Value st"
    and i: "currentInputIndex st = Val (Num i)" and c: "js_index (sequence s) i = Some c"
    by (auto simp: validateInput_def split: slot.splits if_splits)
  from st i have "case map_of (entries (playerStates s)) p of
             Some st \<Rightarrow> currentInputIndex st = Val (Num i)
           | None \<Rightarrow> p = ''__proto__''"
    by (auto simp: js_get_Value split: option.splits)
  with js_index_bound [OF c] show ?thesis by simp
qed

lemma bounded_init:
  "int (length (sequence (initializeSimonGame rnd players)))
     = simon_round (initializeSimonGame rnd players)
   \<and> (\<forall>st \<in> set (obj_values (entries (playerStates (initializeSimonGame rnd players)))).
         currentInputIndex st = Val (Num 0))
   \<and> (\<forall>st. prototype (playerStates (initializeSimonGame rnd players)) = Some st \<longrightarrow>
         currentInputIndex st = Val (Num 0))"
  using set_entries_initial [of initialPlayerState empty_object players]
    prototype_initial [of initialPlayerState empty_object players]
  by (auto simp: initializeSimonGame_def generateSequence_def INITIAL_SEQUENCE_LENGTH_def
      obj_values_def initialPlayerState_def empty_object_def)

lemma reachable_invariant:
  "reachable s \<Longrightarrow>
     (int (length (sequence s)) \<le> 9007199254740992 \<longrightarrow>
        int (length (sequence s)) = simon_round s)
     \<and> (\<forall>st \<in> set (obj_values (entries (playerStates s))).
           (playerId st = Undefined \<and> currentInputIndex st = Undefined)
           \<or> (\<exists>n. currentInputIndex st = Val (Num n) \<and> 0 \<le> n
                  \<and> n \<le> int (length (sequence s))))
     \<and> (\<forall>st. prototype (playerStates s) = Some st \<longrightarrow>
           currentInputIndex st = Undefined \<or> currentInputIndex st = Val NaN
           \<or> (\<exists>n. currentInputIndex st = Val (Num n) \<and> 0 \<le> n
                  \<and> n \<le> int (length (sequence s))))"
proof (induction rule: reachable.induct)
  case (reach_init rnd players)
  from bounded_init [of rnd players] show ?case by auto
next
  case (reach_input s p c i)
  note v = validated_player [OF reach_input.hyps(2)]
  have "(playerId x = Undefined \<and> currentInputIndex x = Undefined)
           \<or> (\<exists>n. currentInputIndex x = Val (Num n) \<and> 0 \<le> n
                  \<and> n \<le> int (length (sequence s)))"
    if "x \<in> set (obj_values (entries (playerStates (updatePlayerProgress s p))))" for x
    using progress_values [OF that] v reach_input.IH
    by (auto simp: plus_one_index)
  moreover have "currentInputIndex x = Val NaN"
    if "prototype (playerStates (updatePlayerProgress s p)) = Some x" for x
    using progress_prototype [OF that] by simp
  ultimately show ?case
    using reach_input.IH by (simp add: progress_fields)
next
  case (reach_eliminate s p r)
  have "(playerId x = Undefined \<and> currentInputIndex x = Undefined)
           \<or> (\<exists>n. currentInputIndex x = Val (Num n) \<and> 0 \<le> n
                  \<and> n \<le> int (length (sequence s)))"
    if "x \<in> set (obj_values (entries (playerStates (eliminatePlayer s p r))))" for x
    using eliminate_values [OF that] reach_eliminate.IH
    by (auto simp: no_properties_def dest!: obj_values_map_of)
  moreover have "currentInputIndex x = Undefined"
    if "prototype (playerStates (eliminatePlayer s p r)) = Some x" for x
    using eliminate_prototype [OF that] by (simp add: no_properties_def)
  ultimately show ?case
    using reach_eliminate.IH by (simp add: eliminate_fields)
next
  case (reach_advance s randomIndex)
  have "int (length (sequence (advanceToNextRound randomIndex s)))
          = simon_round (advanceToNextRound randomIndex s)"
    if "int (length (sequence (advanceToNextRound randomIndex s))) \<le> 9007199254740992"
  proof -
    from that have "int (length (sequence s)) < 9007199254740992"
      by (simp add: advance_fields)
    with reach_advance.IH have "int (length (sequence s)) = simon_round s"
      and "\<bar>simon_round s + 1\<bar> \<le> 9007199254740992" by auto
    then show ?thesis by (simp add: advance_fields to_double_exact)
  qed
  moreover have "\<exists>n. currentInputIndex x = Val (Num n) \<and> 0 \<le> n
                  \<and> n \<le> int (length (sequence (advanceToNextRound randomIndex s)))"
    if "x \<in> set (obj_values (entries (playerStates (advanceToNextRound randomIndex s))))" for x
    using advance_indices [of randomIndex s] that by auto
  moreover have "\<exists>n. currentInputIndex x = Val (Num n) \<and> 0 \<le> n
                  \<and> n \<le> int (length (sequence (advanceToNextRound randomIndex s)))"
    if "prototype (playerStates (advanceToNextRound randomIndex s)) = Some x" for x
    using advance_prototype [OF that] by simp
  ultimately show ?case by blast
qed

text \<open>
  Claim C4. Take a state that a game reaches from \<open>initializeSimonGame\<close> by accepted
  inputs (\<open>updatePlayerProgress\<close> after \<open>validateInput\<close> returned true), eliminations
  and round advancements, in any order, and whose sequence has at most \<open>2^32 - 1\<close>
  elements, as every array has. The length of the sequence equals the round, and no
  \<open>currentInputIndex\<close> exceeds the length of the sequence: each own entry of
  \<open>playerStates\<close> has an index from 0 to the length, unless it is an object without
  \<open>playerId\<close> and without \<open>currentInputIndex\<close>, which \<open>eliminatePlayer\<close> creates under
  the name of a member of \<open>Object.prototype\<close>; the object that the dictionary has as
  its prototype has such an index, or none, or \<open>NaN\<close>.
\<close>

theorem reachable_progress_bounded:
  assumes "reachable s" and "length (sequence s) \<le> MAX_ARRAY_LENGTH"
  shows "int (length (sequence s)) = simon_round s
     \<and> (\<forall>st \<in> set (obj_values (entries (playerStates s))).
           (playerId st = Undefined \<and> currentInputIndex st = Undefined)
           \<or> (\<exists>n. currentInputIndex st = Val (Num n) \<and> 0 \<le> n
                  \<and> n \<le> int (length (sequence s))))
     \<and> (\<forall>st. prototype (playerStates s) = Some st \<longrightarrow>
           currentInputIndex st = Undefined \<or> currentInputIndex st = Val NaN
           \<or> (\<exists>n. currentInputIndex st = Val (Num n) \<and> 0 \<le> n
                  \<and> n \<le> int (length (sequence s))))"
proof -
  from assms(2) have "int (length (sequence s)) \<le> 9007199254740992"
    by (simp add: MAX_ARRAY_LENGTH_def)
  with reachable_invariant [OF assms(1)] show ?thesis by blast
qed

theorem reachable_progress_bounded_witness:
  "reachable played_game
   \<and> length (sequence played_game) \<le> MAX_ARRAY_LENGTH
   \<and> int (length (sequence played_game)) = simon_round played_game
   \<and> simon_round played_game = 2
   \<and> obj_values (entries (playerStates played_game))
       = [\<lparr> playerId = Val ''p1'', status = Val playing, currentInputIndex = Val (Num 0),
            eliminatedAtRound = Null \<rparr>,
          \<lparr> playerId = Val ''p2'', status = Val eliminated, currentInputIndex = Val (Num 0),
            eliminatedAtRound = Val 1 \<rparr>]
   \<and> prototype (playerStates played_game) = None"
proof -
  have "validateInput (initializeSimonGame (\<lambda>_. 0) [''p1'', ''p2'']) ''p1'' red 0"
    by code_simp
  then have r: "reachable played_game"
    unfolding played_game_def
    by (intro reach_advance reach_eliminate reach_input [where c = red and i = 0] reach_init)
  have len: "length (sequence played_game) \<le> MAX_ARRAY_LENGTH"
    by (simp add: played_game_def advance_fields eliminate_fields progress_fields
        initializeSimonGame_def generateSequence_def INITIAL_SEQUENCE_LENGTH_def
        MAX_ARRAY_LENGTH_def)
  have rd: "simon_round played_game = 2"
    by code_simp
  have vals: "obj_values (entries (playerStates played_game))
       = [\<lparr> playerId = Val ''p1'', status = Val playing, currentInputIndex = Val (Num 0),
            eliminatedAtRound = Null \<rparr>,
          \<lparr> playerId = Val ''p2'', status = Val eliminated, currentInputIndex = Val (Num 0),
            eliminatedAtRound = Val 1 \<rparr>]"
    by code_simp
  have pr: "prototype (playerStates played_game) = None"
    by code_simp
  from reachable_progress_bounded [OF r len] r len rd vals pr show ?thesis by blast
qed

section \<open>Player status\<close>

lemma distinct_initial:
  "distinct (map fst (entries acc)) \<Longrightarrow>
     distinct (map fst (entries (foldl (\<lambda>ob pid. js_set pid (g pid) ob) acc players)))"
  by (induction players arbitrary: acc) (auto simp: distinct_js_set)

lemma no_own_proto_initial:
  "map_of (entries acc) ''__proto__'' = None \<Longrightarrow>
     map_of (entries (foldl (\<lambda>ob pid. js_set pid (g pid) ob) acc players)) ''__proto__'' = None"
  by (induction players arbitrary: acc) (auto simp: no_own_proto_js_set)

text \<open>
  What holds of the dictionary in every state of a game: each key occurs once, no own
  property is called \<open>__proto__\<close>, and no status is \<open>spectating\<close> or \<open>null\<close>.
\<close>

lemma init_wellformed:
  "distinct (obj_keys (entries (playerStates (initializeSimonGame rnd players))))
   \<and> map_of (entries (playerStates (initializeSimonGame rnd players))) ''__proto__'' = None
   \<and> (\<forall>st \<in> set (obj_values (entries (playerStates (initializeSimonGame rnd players)))).
         status st = Undefined \<or> status st = Val playing \<or> status st = Val eliminated)"
  using set_entries_initial [of initialPlayerState empty_object players]
    distinct_initial [of empty_object initialPlayerState players]
    no_own_proto_initial [of empty_object initialPlayerState players]
  by (auto simp: initializeSimonGame_def obj_values_def obj_keys_def initialPlayerState_def
      empty_object_def)

lemma step_wellformed:
  assumes "simon_step s s'"
    and "distinct (obj_keys (entries (playerStates s)))
       \<and> map_of (entries (playerStates s)) ''__proto__'' = None
       \<and> (\<forall>st \<in> set (obj_values (entries (playerStates s))).
             status st = Undefined \<or> status st = Val playing \<or> status st = Val eliminated)"
  shows "distinct (obj_keys (entries (playerStates s')))
       \<and> map_of (entries (playerStates s')) ''__proto__'' = None
       \<and> (\<forall>st \<in> set (obj_values (entries (playerStates s'))).
             status st = Undefined \<or> status st = Val playing \<or> status st = Val eliminated)"
  using assms
proof (induction rule: simon_step.induct)
  case (step_progress s p)
  then have d: "distinct (map fst (entries (spread (playerStates s))))"
    and n: "map_of (entries (spread (playerStates s))) ''__proto__'' = None"
    by (simp_all add: obj_keys_def)
  have "distinct (obj_keys (entries (playerStates (updatePlayerProgress s p))))"
    using d by (simp add: progress_playerStates obj_keys_def distinct_js_set
        split: option.splits)
  moreover have "map_of (entries (playerStates (updatePlayerProgress s p))) ''__proto__'' = None"
    using n by (simp add: progress_playerStates no_own_proto_js_set split: option.splits)
  moreover have "status x = Undefined \<or> status x = Val playing \<or> status x = Val eliminated"
    if "x \<in> set (obj_values (entries (playerStates (updatePlayerProgress s p))))" for x
    using progress_values [OF that] step_progress
    by (auto simp: no_properties_def dest!: obj_values_map_of)
  ultimately show ?case by blast
next
  case (step_eliminate s p r)
  then have d: "distinct (map fst (entries (spread (playerStates s))))"
    and n: "map_of (entries (spread (playerStates s))) ''__proto__'' = None"
    by (simp_all add: obj_keys_def)
  have "distinct (obj_keys (entries (playerStates (eliminatePlayer s p r))))"
    using d by (simp add: eliminate_playerStates obj_keys_def distinct_js_set
        split: option.splits)
  moreover have "map_of (entries (playerStates (eliminatePlayer s p r))) ''__proto__'' = None"
    using n by (simp add: eliminate_playerStates no_own_proto_js_set split: option.splits)
  moreover have "status x = Undefined \<or> status x = Val playing \<or> status x = Val eliminated"
    if "x \<in> set (obj_values (entries (playerStates (eliminatePlayer s p r))))" for x
    using eliminate_values [OF that] step_eliminate
    by (auto simp: no_properties_def)
  ultimately show ?case by blast
next
  case (step_advance s randomIndex)
  have "distinct (obj_keys (entries (playerStates (advanceToNextRound randomIndex s))))"
    using distinct_rebuild [of empty_object _ "entries (playerStates s)"]
    by (simp add: advance_fields obj_keys_def empty_object_def)
  moreover have "map_of (entries (playerStates (advanceToNextRound randomIndex s))) ''__proto__''
      = None"
    using no_own_proto_rebuild [of empty_object _ "entries (playerStates s)"]
    by (simp add: advance_fields empty_object_def)
  moreover have "status x = Undefined \<or> status x = Val playing \<or> status x = Val eliminated"
    if "x \<in> set (obj_values (entries (playerStates (advanceToNextRound randomIndex s))))" for x
    using set_entries_rebuild [of "\<lambda>st. st\<lparr>currentInputIndex := Val (Num 0)\<rparr>" empty_object
        "entries (playerStates s)"] that step_advance
    by (fastforce simp: advance_fields obj_values_def empty_object_def)
  ultimately show ?case by blast
qed

lemma run_wellformed:
  assumes "simon_step\<^sup>*\<^sup>* (initializeSimonGame rnd players) s"
  shows "distinct (obj_keys (entries (playerStates s)))
       \<and> map_of (entries (playerStates s)) ''__proto__'' = None
       \<and> (\<forall>st \<in> set (obj_values (entries (playerStates s))).
             status st = Undefined \<or> status st = Val playing \<or> status st = Val eliminated)"
  using assms
proof (induction rule: rtranclp_induct)
  case base
  show ?case by (rule init_wellformed)
next
  case (step y z)
  from step.hyps(2) step.IH show ?case by (rule step_wellformed)
qed

lemma step_status:
  assumes "simon_step s s'"
    and "distinct (obj_keys (entries (playerStates s)))"
    and "map_of (entries (playerStates s)) ''__proto__'' = None"
    and "map_of (entries (playerStates s)) p = Some st"
  shows "\<exists>st'. map_of (entries (playerStates s')) p = Some st'
           \<and> (status st' = status st \<or> status st' = Val eliminated)"
  using assms
proof (induction rule: simon_step.induct)
  case (step_progress s q)
  from step_progress(3) show ?case
    by (auto simp: progress_playerStates map_of_entries_js_set split: option.splits)
next
  case (step_eliminate s q r)
  from step_eliminate(3) show ?case
    by (auto simp: eliminate_playerStates map_of_entries_js_set split: option.splits)
next
  case (step_advance s randomIndex)
  from step_advance(2,3) have "p \<noteq> ''__proto__''" by auto
  with advance_players(1) [OF step_advance(1), of randomIndex] step_advance(3)
  show ?case by simp
qed

lemma step_prototype:
  assumes "simon_step s s'"
    and "distinct (obj_keys (entries (playerStates s)))"
    and "map_of (entries (playerStates s)) ''__proto__'' = None"
    and "prototype (playerStates s') = Some x"
  shows "status x \<noteq> Val playing"
  using assms
proof (induction rule: simon_step.induct)
  case (step_progress s q)
  from progress_prototype [OF step_progress(3)] show ?case
    by (simp add: no_properties_def)
next
  case (step_eliminate s q r)
  from eliminate_prototype [OF step_eliminate(3)] show ?case
    by (simp add: no_properties_def)
next
  case (step_advance s randomIndex)
  from advance_players(3) [OF step_advance(1), of randomIndex] step_advance(2,3)
  show ?case by simp
qed

lemma run_status:
  assumes "simon_step\<^sup>*\<^sup>* s0 s" and "simon_step\<^sup>*\<^sup>* s s'"
    and "s0 = initializeSimonGame rnd players"
    and "map_of (entries (playerStates s)) p = Some st"
  shows "\<exists>st'. map_of (entries (playerStates s')) p = Some st'
           \<and> (status st' = status st \<or> status st' = Val eliminated)"
  using assms(2,1,3,4)
proof (induction rule: rtranclp_induct)
  case base
  then show ?case by simp
next
  case (step y z)
  from step obtain sty where sty: "map_of (entries (playerStates y)) p = Some sty"
    and rel: "status sty = status st \<or> status sty = Val eliminated" by blast
  from step.prems(1) step.hyps(1) have "simon_step\<^sup>*\<^sup>* s0 y" by (rule rtranclp_trans)
  with step.prems(2) have w: "distinct (obj_keys (entries (playerStates y)))
       \<and> map_of (entries (playerStates y)) ''__proto__'' = None"
    using run_wellformed by blast
  from step_status [OF step.hyps(2) _ _ sty] w rel show ?case by auto
qed

text \<open>
  Claim C9. Take a game started by \<open>initializeSimonGame\<close> and continued by any
  applications of \<open>updatePlayerProgress\<close>, \<open>eliminatePlayer\<close> and
  \<open>advanceToNextRound\<close>, and two of its states, \<open>s\<close> and a later \<open>s'\<close>. An own entry
  of \<open>s.playerStates\<close> is one of \<open>s'.playerStates\<close>, and its status either is the same
  in both, or went from \<open>playing\<close> to \<open>eliminated\<close> or \<open>spectating\<close>, or the entry has
  no status in \<open>s\<close> (the two operations on one player create such entries under the
  names of members of \<open>Object.prototype\<close>) and is \<open>eliminated\<close> in \<open>s'\<close>; a status other
  than \<open>playing\<close> never becomes \<open>playing\<close> again. The latter holds of every player state
  that \<open>playerStates[p]\<close> gives in both states, the one kept as the prototype of the
  dictionary included.
\<close>

theorem status_never_returns:
  assumes "simon_step\<^sup>*\<^sup>* (initializeSimonGame rnd players) s"
    and "simon_step\<^sup>*\<^sup>* s s'"
  shows "(\<forall>p st. map_of (entries (playerStates s)) p = Some st \<longrightarrow>
            (\<exists>st'. map_of (entries (playerStates s')) p = Some st'
               \<and> (status st' = status st
                    \<or> (status st = Val playing
                         \<and> (status st' = Val eliminated \<or> status st' = Val spectating))
                    \<or> (status st = Undefined \<and> status st' = Val eliminated))
               \<and> (status st \<noteq> Val playing \<longrightarrow> status st' \<noteq> Val playing)))
       \<and> (\<forall>p st st'. js_get (playerStates s) p = Value st \<and> status st \<noteq> Val playing
              \<and> js_get (playerStates s') p = Value st'
            \<longrightarrow> status st' \<noteq> Val playing)"
proof (intro conjI allI impI)
  fix p st
  assume own: "map_of (entries (playerStates s)) p = Some st"
  from run_wellformed [OF assms(1)] obj_values_map_of [OF own]
  have cases: "status st = Undefined \<or> status st = Val playing \<or> status st = Val eliminated"
    by blast
  from run_status [OF assms(1) assms(2) refl own] obtain st' where
    st': "map_of (entries (playerStates s')) p = Some st'"
    and rel: "status st' = status st \<or> status st' = Val eliminated" by blast
  from cases rel have "(status st' = status st
                    \<or> (status st = Val playing
                         \<and> (status st' = Val eliminated \<or> status st' = Val spectating))
                    \<or> (status st = Undefined \<and> status st' = Val eliminated))
               \<and> (status st \<noteq> Val playing \<longrightarrow> status st' \<noteq> Val playing)"
    by auto
  with st' show "\<exists>st'. map_of (entries (playerStates s')) p = Some st'
               \<and> (status st' = status st
                    \<or> (status st = Val playing
                         \<and> (status st' = Val eliminated \<or> status st' = Val spectating))
                    \<or> (status st = Undefined \<and> status st' = Val eliminated))
               \<and> (status st \<noteq> Val playing \<longrightarrow> status st' \<noteq> Val playing)"
    by blast
next
  fix p st st'
  assume a: "js_get (playerStates s) p = Value st \<and> status st \<noteq> Val playing
              \<and> js_get (playerStates s') p = Value st'"
  from assms have run': "simon_step\<^sup>*\<^sup>* (initializeSimonGame rnd players) s'"
    by (rule rtranclp_trans)
  show "status st' \<noteq> Val playing"
  proof (cases "map_of (entries (playerStates s)) p")
    case (Some own)
    with a have [simp]: "own = st" by (simp add: js_get_def)
    from run_status [OF assms(1) assms(2) refl Some] obtain st'' where
      st'': "map_of (entries (playerStates s')) p = Some st''"
      and rel: "status st'' = status st \<or> status st'' = Val eliminated" by auto
    from st'' a have "st'' = st'" by (simp add: js_get_def)
    with rel a show ?thesis by auto
  next
    case None
    with a have p: "p = ''__proto__''" and pr: "prototype (playerStates s) = Some st"
      by (auto simp: js_get_Value)
    from run_wellformed [OF run'] p have "map_of (entries (playerStates s')) p = None"
      by blast
    with a have pr': "prototype (playerStates s') = Some st'"
      by (auto simp: js_get_Value)
    from assms(2) show ?thesis
    proof (cases rule: rtranclp.cases)
      case rtrancl_refl
      with pr pr' a show ?thesis by simp
    next
      case (rtrancl_into_rtrancl y)
      from assms(1) rtrancl_into_rtrancl(1)
      have "simon_step\<^sup>*\<^sup>* (initializeSimonGame rnd players) y" by (rule rtranclp_trans)
      from run_wellformed [OF this] step_prototype [OF rtrancl_into_rtrancl(2) _ _ pr']
      show ?thesis by blast
    qed
  qed
qed

theorem status_never_returns_witness:
  "simon_step\<^sup>*\<^sup>* (initializeSimonGame (\<lambda>_. 0) [''p1'', ''p2'']) after_elimination
   \<and> simon_step\<^sup>*\<^sup>* after_elimination after_advance
   \<and> map_of (entries (playerStates after_elimination)) ''p2''
       = Some \<lparr> playerId = Val ''p2'', status = Val eliminated, currentInputIndex = Val (Num 0),
                eliminatedAtRound = Val 1 \<rparr>
   \<and> (\<exists>st'. map_of (entries (playerStates after_advance)) ''p2'' = Some st'
          \<and> status st' = Val eliminated)
   \<and> (\<exists>st st'. js_get (playerStates after_elimination) ''p2'' = Value st
          \<and> status st = Val eliminated
          \<and> js_get (playerStates after_advance) ''p2'' = Value st'
          \<and> status st' \<noteq> Val playing)"
proof -
  have a: "simon_step\<^sup>*\<^sup>* (initializeSimonGame (\<lambda>_. 0) [''p1'', ''p2'']) after_elimination"
    unfolding after_elimination_def by (rule r_into_rtranclp) (rule step_eliminate)
  have b: "simon_step\<^sup>*\<^sup>* after_elimination after_advance"
    unfolding after_advance_def by (rule r_into_rtranclp) (rule step_advance)
  have c: "map_of (entries (playerStates after_elimination)) ''p2''
       = Some \<lparr> playerId = Val ''p2'', status = Val eliminated, currentInputIndex = Val (Num 0),
                eliminatedAtRound = Val 1 \<rparr>"
    by code_simp
  note never = status_never_returns [OF a b]
  from never c
  have own: "\<exists>st'. map_of (entries (playerStates after_advance)) ''p2'' = Some st'
          \<and> status st' = Val eliminated"
    by fastforce
  then obtain st' where st': "map_of (entries (playerStates after_advance)) ''p2'' = Some st'"
    by blast
  from c have g: "js_get (playerStates after_elimination) ''p2''
      = Value \<lparr> playerId = Val ''p2'', status = Val eliminated,
                 currentInputIndex = Val (Num 0), eliminatedAtRound = Val 1 \<rparr>"
    by (simp add: js_get_def)
  from st' have g': "js_get (playerStates after_advance) ''p2'' = Value st'"
    by (simp add: js_get_def)
  from never g g' have "status st' \<noteq> Val playing"
    by fastforce
  with g g'
  have "\<exists>st st'. js_get (playerStates after_elimination) ''p2'' = Value st
          \<and> status st = Val eliminated
          \<and> js_get (playerStates after_advance) ''p2'' = Value st'
          \<and> status st' \<noteq> Val playing"
    by fastforce
  with a b c own show ?thesis by blast
qed

section \<open>End of the game and its winner\<close>

lemma lastEliminated_none:
  "\<forall>y \<in> set sts. \<forall>r. eliminatedAtRound y = Val r \<longrightarrow> r \<le> m \<Longrightarrow>
     foldl lastEliminated_step (m, w) sts = (m, w)"
  by (induction sts) (auto simp: lastEliminated_step_def split: js.splits)

lemma lastEliminated_below:
  "m < r \<Longrightarrow> \<forall>y \<in> set sts. \<forall>r'. eliminatedAtRound y = Val r' \<longrightarrow> r' < r \<Longrightarrow>
     fst (foldl lastEliminated_step (m, w) sts) < r"
  by (induction sts arbitrary: m w) (auto simp: lastEliminated_step_def split: js.splits)

lemma lastEliminated_first_max:
  assumes "eliminatedAtRound st = Val r" and "m < r"
    and pre: "\<forall>y \<in> set pre. \<forall>r'. eliminatedAtRound y = Val r' \<longrightarrow> r' < r"
    and post: "\<forall>y \<in> set post. \<forall>r'. eliminatedAtRound y = Val r' \<longrightarrow> r' \<le> r"
  shows "foldl lastEliminated_step (m, w) (pre @ st # post) = (r, playerId st)"
proof -
  obtain m1 w1 where acc: "foldl lastEliminated_step (m, w) pre = (m1, w1)"
    by (cases "foldl lastEliminated_step (m, w) pre")
  from lastEliminated_below [OF assms(2) pre, of w] acc have "m1 < r" by simp
  with assms(1) have "lastEliminated_step (m1, w1) st = (r, playerId st)"
    by (simp add: lastEliminated_step_def)
  with acc post show ?thesis
    by (simp add: lastEliminated_none)
qed

lemma getWinner_none_playing:
  "getActivePlayerCount s = 0 \<Longrightarrow>
     getWinner s
       = snd (foldl lastEliminated_step (-1, Null) (obj_values (entries (playerStates s))))"
  by (simp add: getWinner_def getActivePlayerCount_def)

text \<open>
  When some player has a round of elimination above \<open>-1\<close>, there is a first player
  with the highest round, the one that the theorem below speaks of.
\<close>

lemma last_eliminated_exists:
  assumes "\<exists>st \<in> set (obj_values (entries (playerStates s))).
             \<exists>r. eliminatedAtRound st = Val r \<and> -1 < r"
  shows "\<exists>pre st post r. obj_values (entries (playerStates s)) = pre @ st # post
           \<and> eliminatedAtRound st = Val r \<and> -1 < r
           \<and> (\<forall>y \<in> set pre. \<forall>r'. eliminatedAtRound y = Val r' \<longrightarrow> r' < r)
           \<and> (\<forall>y \<in> set post. \<forall>r'. eliminatedAtRound y = Val r' \<longrightarrow> r' \<le> r)"
proof -
  let ?k = "\<lambda>st. case eliminatedAtRound st of Val r \<Rightarrow> Some r | _ \<Rightarrow> None"
  have k: "?k st = Some r \<longleftrightarrow> eliminatedAtRound st = Val r" for st r
    by (simp split: js.splits)
  from assms have "\<exists>st \<in> set (obj_values (entries (playerStates s))). \<exists>r. ?k st = Some r \<and> -1 < r"
    unfolding k .
  from first_highest_exists [where k = ?k, OF this] show ?thesis
    unfolding k .
qed

text \<open>
  Claim C2, as the code has it. \<open>shouldGameEnd(s)\<close> is true exactly when at most one
  player has status \<open>playing\<close>. When exactly one player has it, \<open>getWinner(s)\<close>
  returns that player. When none has it, \<open>getWinner(s)\<close> returns the first player, in
  enumeration order, with the highest \<open>eliminatedAtRound\<close>, provided that this round
  is greater than \<open>-1\<close>: every player before it has a lower round or none, every
  player after it has at most that round or none. When none has it and no round of
  elimination is greater than \<open>-1\<close>, \<open>getWinner(s)\<close> returns \<open>null\<close>.
\<close>

theorem winner_resolution:
  "(shouldGameEnd s \<longleftrightarrow> getActivePlayerCount s \<le> 1)
   \<and> (\<forall>st. filter (\<lambda>st. status st = Val playing) (obj_values (entries (playerStates s))) = [st]
          \<longrightarrow> getWinner s = playerId st)
   \<and> (\<forall>pre st post r.
          getActivePlayerCount s = 0
          \<and> obj_values (entries (playerStates s)) = pre @ st # post
          \<and> eliminatedAtRound st = Val r \<and> -1 < r
          \<and> (\<forall>y \<in> set pre. \<forall>r'. eliminatedAtRound y = Val r' \<longrightarrow> r' < r)
          \<and> (\<forall>y \<in> set post. \<forall>r'. eliminatedAtRound y = Val r' \<longrightarrow> r' \<le> r)
          \<longrightarrow> getWinner s = playerId st)
   \<and> (getActivePlayerCount s = 0
        \<and> (\<forall>y \<in> set (obj_values (entries (playerStates s))).
              \<forall>r. eliminatedAtRound y = Val r \<longrightarrow> r \<le> -1)
        \<longrightarrow> getWinner s = Null)"
proof (intro conjI allI impI)
  show "shouldGameEnd s \<longleftrightarrow> getActivePlayerCount s \<le> 1"
    by (simp add: shouldGameEnd_def getActivePlayerCount_def)
next
  fix st
  assume "filter (\<lambda>st. status st = Val playing) (obj_values (entries (playerStates s))) = [st]"
  then show "getWinner s = playerId st"
    by (simp add: getWinner_def)
next
  fix pre st post r
  assume a: "getActivePlayerCount s = 0
          \<and> obj_values (entries (playerStates s)) = pre @ st # post
          \<and> eliminatedAtRound st = Val r \<and> -1 < r
          \<and> (\<forall>y \<in> set pre. \<forall>r'. eliminatedAtRound y = Val r' \<longrightarrow> r' < r)
          \<and> (\<forall>y \<in> set post. \<forall>r'. eliminatedAtRound y = Val r' \<longrightarrow> r' \<le> r)"
  then have vals: "obj_values (entries (playerStates s)) = pre @ st # post"
    and st: "eliminatedAtRound st = Val r" and r: "-1 < r"
    and pre: "\<forall>y \<in> set pre. \<forall>r'. eliminatedAtRound y = Val r' \<longrightarrow> r' < r"
    and post: "\<forall>y \<in> set post. \<forall>r'. eliminatedAtRound y = Val r' \<longrightarrow> r' \<le> r"
    by blast+
  from a have "getWinner s
      = snd (foldl lastEliminated_step (-1, Null) (obj_values (entries (playerStates s))))"
    by (intro getWinner_none_playing) blast
  also have "\<dots> = playerId st"
    unfolding vals using lastEliminated_first_max [OF st r pre post, of Null] by simp
  finally show "getWinner s = playerId st" .
next
  assume a: "getActivePlayerCount s = 0
        \<and> (\<forall>y \<in> set (obj_values (entries (playerStates s))).
              \<forall>r. eliminatedAtRound y = Val r \<longrightarrow> r \<le> -1)"
  then have "foldl lastEliminated_step (-1, Null) (obj_values (entries (playerStates s)))
      = (-1, Null)"
    by (intro lastEliminated_none) blast
  moreover from a have "getWinner s
      = snd (foldl lastEliminated_step (-1, Null) (obj_values (entries (playerStates s))))"
    by (intro getWinner_none_playing) blast
  ultimately show "getWinner s = Null" by simp
qed

theorem winner_resolution_witness:
  "filter (\<lambda>st. status st = Val playing) (obj_values (entries (playerStates example_game)))
     = [\<lparr> playerId = Val ''p1'', status = Val playing, currentInputIndex = Val (Num 1),
          eliminatedAtRound = Null \<rparr>]
   \<and> getWinner example_game = Val ''p1''
   \<and> getActivePlayerCount all_out_game = 0
   \<and> map eliminatedAtRound (obj_values (entries (playerStates all_out_game)))
       = [Val 2, Val 3, Val 3]
   \<and> getWinner all_out_game = Val ''p2''
   \<and> getActivePlayerCount negative_round_game = 0
   \<and> getWinner negative_round_game = Null"
proof -
  let ?p1 = "\<lparr> playerId = Val ''p1'', status = Val playing, currentInputIndex = Val (Num 1),
               eliminatedAtRound = Null \<rparr>"
  let ?a = "\<lparr> playerId = Val ''p1'', status = Val eliminated, currentInputIndex = Val (Num 0),
              eliminatedAtRound = Val 2 \<rparr>"
  let ?b = "\<lparr> playerId = Val ''p2'', status = Val eliminated, currentInputIndex = Val (Num 1),
              eliminatedAtRound = Val 3 \<rparr>"
  let ?c = "\<lparr> playerId = Val ''p3'', status = Val eliminated, currentInputIndex = Val (Num 2),
              eliminatedAtRound = Val 3 \<rparr>"
  have one: "filter (\<lambda>st. status st = Val playing)
               (obj_values (entries (playerStates example_game))) = [?p1]"
    by (simp add: example_game_def obj_values_def)
  have w1: "getWinner example_game = Val ''p1''"
    using winner_resolution [of example_game] one by simp
  have zero: "getActivePlayerCount all_out_game = 0"
    by (simp add: all_out_game_def getActivePlayerCount_def obj_values_def)
  have vals: "obj_values (entries (playerStates all_out_game)) = [?a] @ ?b # [?c]"
    by (simp add: all_out_game_def obj_values_def)
  have tie: "getActivePlayerCount all_out_game = 0
          \<and> obj_values (entries (playerStates all_out_game)) = pre @ st # post
          \<and> eliminatedAtRound st = Val r \<and> -1 < r
          \<and> (\<forall>y \<in> set pre. \<forall>r'. eliminatedAtRound y = Val r' \<longrightarrow> r' < r)
          \<and> (\<forall>y \<in> set post. \<forall>r'. eliminatedAtRound y = Val r' \<longrightarrow> r' \<le> r)
          \<longrightarrow> getWinner all_out_game = playerId st" for pre st post r
    using winner_resolution [of all_out_game] by blast
  have w2: "getWinner all_out_game = Val ''p2''"
    using tie [of "[?a]" ?b "[?c]" 3] zero vals by simp
  have zero': "getActivePlayerCount negative_round_game = 0"
    by (simp add: negative_round_game_def getActivePlayerCount_def obj_values_def)
  have w3: "getWinner negative_round_game = Null"
    using winner_resolution [of negative_round_game] zero'
    by (simp add: negative_round_game_def obj_values_def)
  from one w1 zero vals w2 zero' w3 show ?thesis by simp
qed

text \<open>
  The claim as stated puts no lower bound on the round: in a game whose only player was
  eliminated at round \<open>-1\<close> that player has the highest round of elimination, and
  \<open>getWinner\<close> does not return it.
\<close>

theorem negative_round_counterexample:
  "getActivePlayerCount negative_round_game = 0
   \<and> map (\<lambda>st. (playerId st, eliminatedAtRound st))
       (obj_values (entries (playerStates negative_round_game)))
       = [(Val ''p1'', Val (-1))]
   \<and> getWinner negative_round_game \<noteq> Val ''p1''"
  by (simp add: negative_round_game_def getActivePlayerCount_def getWinner_def obj_values_def
      lastEliminated_step_def)

section \<open>A round of Color Race\<close>

lemma fastest_stays:
  "\<forall>a \<in> set post. timestamp w \<le> timestamp a \<Longrightarrow> foldl fasterAnswer w post = w"
  by (induction post) (auto simp: fasterAnswer_def)

lemma fastest_member: "foldl fasterAnswer x xs \<in> set (x # xs)"
  by (induction xs arbitrary: x) (auto simp: fasterAnswer_def)

lemma reduce1_first_min:
  assumes pre: "\<forall>a \<in> set pre. timestamp w < timestamp a"
    and post: "\<forall>a \<in> set post. timestamp w \<le> timestamp a"
  shows "reduce1 fasterAnswer (pre @ w # post) = w"
proof (cases pre)
  case Nil
  with post show ?thesis by (simp add: reduce1_def fastest_stays)
next
  case (Cons p pre')
  from fastest_member [of p pre'] pre Cons
  have "timestamp w < timestamp (foldl fasterAnswer p pre')" by auto
  then have "fasterAnswer (foldl fasterAnswer p pre') w = w" by (simp add: fasterAnswer_def)
  with post show ?thesis
    by (simp add: reduce1_def Cons fastest_stays)
qed

lemma race_advance_fields:
  "roundWinner (race_advanceToNextRound ri s w) = w"
  "scores (race_advanceToNextRound ri s w) = scores s"
  "race_round s \<ge> totalRounds s \<Longrightarrow> race_phase (race_advanceToNextRound ri s w) = race_finished"
  "race_round s \<ge> totalRounds s \<Longrightarrow> currentColor (race_advanceToNextRound ri s w) = None"
  "race_round s < totalRounds s \<Longrightarrow> race_phase (race_advanceToNextRound ri s w) = showing_color"
  "race_round s < totalRounds s \<Longrightarrow>
     race_round (race_advanceToNextRound ri s w) = to_double (race_round s + 1)"
  by (simp_all add: race_advanceToNextRound_def js_plus_def)

lemma map_of_plain_set_primitive:
  "map_of (plain_set_primitive k v ob) =
     (if map_of ob k = None \<and> k = ''__proto__'' then map_of ob else (map_of ob)(k \<mapsto> v))"
  by (auto simp: plain_set_primitive_def map_of_obj_insert update_conv')

text \<open>
  A non-empty list of answers has a first answer with the lowest timestamp, the one
  that the theorem below speaks of.
\<close>

lemma fastest_correct_exists:
  assumes "xs \<noteq> []"
  shows "\<exists>pre w post. xs = pre @ w # post
           \<and> (\<forall>a \<in> set pre. timestamp w < timestamp a)
           \<and> (\<forall>a \<in> set post. timestamp w \<le> timestamp a)"
proof -
  from assms obtain x where "x \<in> set xs" by (cases xs) auto
  then have "\<exists>a \<in> set xs. \<exists>r. Some (- timestamp a) = Some r \<and> - timestamp x - 1 < r"
    by (intro bexI [of _ x]) simp_all
  from first_highest_exists [where k = "\<lambda>a. Some (- timestamp a)", OF this]
  show ?thesis by fastforce
qed

lemma processRound_fastest:
  assumes correct: "filter (\<lambda>a. Some (answer_color a) = currentColor s) answers = pre @ w # post"
    and pre: "\<forall>a \<in> set pre. timestamp w < timestamp a"
    and post: "\<forall>a \<in> set post. timestamp w \<le> timestamp a"
  shows "processRound ri s answers =
           race_advanceToNextRound ri
             (s\<lparr> scores :=
                  plain_set_primitive (answer_playerId w)
                    (or_zero_plus_one (plain_get (scores s) (answer_playerId w))) (scores s) \<rparr>)
             (Some (answer_playerId w))"
proof -
  have "reduce1 fasterAnswer (pre @ w # post) = w"
    using pre post by (rule reduce1_first_min)
  then show ?thesis
    by (simp add: processRound_def correct)
qed

text \<open>
  The score stored for a player whose id has no score and names a member of
  \<open>Object.prototype\<close> is a string.
\<close>

lemma processRound_inherited_name:
  "roundWinner (processRound 1 race_game inherited_name_answers) = Some ''constructor''
   \<and> scores (processRound 1 race_game inherited_name_answers)
       = [(''player-1'', Score 0), (''player-2'', Score 0), (''constructor'', Text)]"
  by code_simp

text \<open>
  Claim C3, as the code has it. Let \<open>w\<close> be the first answer with the lowest timestamp
  among the answers whose colour equals \<open>s.currentColor\<close>: in the list of those
  answers, every answer before \<open>w\<close> has a higher timestamp and every answer after it
  has at least the timestamp of \<open>w\<close>. Then \<open>processRound(s, answers)\<close> sets
  \<open>roundWinner\<close> to the player of \<open>w\<close> and leaves the score of every other player as it
  is. When the player of \<open>w\<close> has the score \<open>n\<close>, the new score is the double nearest
  to \<open>n + 1\<close>, which is \<open>n + 1\<close> when \<open>n\<close> is below \<open>2^53\<close> in magnitude; when the
  player has no score and the id is not the name of a member of \<open>Object.prototype\<close>,
  the new score is 1. Answers with another colour do not take part, whatever their
  timestamps.
\<close>

theorem fastest_correct_scores:
  assumes correct: "filter (\<lambda>a. Some (answer_color a) = currentColor s) answers = pre @ w # post"
    and pre: "\<forall>a \<in> set pre. timestamp w < timestamp a"
    and post: "\<forall>a \<in> set post. timestamp w \<le> timestamp a"
  shows "roundWinner (processRound ri s answers) = Some (answer_playerId w)
       \<and> (\<forall>n. map_of (scores s) (answer_playerId w) = Some (Score n) \<longrightarrow>
             map_of (scores (processRound ri s answers)) (answer_playerId w)
               = Some (Score (to_double (n + 1)))
             \<and> (\<bar>n\<bar> < 9007199254740992 \<longrightarrow>
                  map_of (scores (processRound ri s answers)) (answer_playerId w)
                    = Some (Score (n + 1))))
       \<and> (map_of (scores s) (answer_playerId w) = None
            \<and> answer_playerId w \<noteq> ''__proto__''
            \<and> answer_playerId w \<notin> set OBJECT_PROTOTYPE_FUNCTIONS \<longrightarrow>
             map_of (scores (processRound ri s answers)) (answer_playerId w) = Some (Score 1))
       \<and> (\<forall>q. q \<noteq> answer_playerId w \<longrightarrow>
             map_of (scores (processRound ri s answers)) q = map_of (scores s) q)"
proof -
  note result = processRound_fastest [OF assms, of ri]
  have one: "to_double 1 = 1" by (simp add: to_double_exact)
  have "roundWinner (processRound ri s answers) = Some (answer_playerId w)"
    unfolding result by (simp add: race_advance_fields)
  moreover have "map_of (scores (processRound ri s answers)) (answer_playerId w)
               = Some (Score (to_double (n + 1)))
             \<and> (\<bar>n\<bar> < 9007199254740992 \<longrightarrow>
                  map_of (scores (processRound ri s answers)) (answer_playerId w)
                    = Some (Score (n + 1)))"
    if "map_of (scores s) (answer_playerId w) = Some (Score n)" for n
    unfolding result using that
    by (simp add: race_advance_fields map_of_plain_set_primitive plain_get_def
        or_zero_plus_one_def js_plus_def to_double_exact)
  moreover have "map_of (scores (processRound ri s answers)) (answer_playerId w) = Some (Score 1)"
    if "map_of (scores s) (answer_playerId w) = None
            \<and> answer_playerId w \<noteq> ''__proto__''
            \<and> answer_playerId w \<notin> set OBJECT_PROTOTYPE_FUNCTIONS"
    unfolding result using that one
    by (simp add: race_advance_fields map_of_plain_set_primitive plain_get_def
        or_zero_plus_one_def js_plus_def)
  moreover have "map_of (scores (processRound ri s answers)) q = map_of (scores s) q"
    if "q \<noteq> answer_playerId w" for q
    unfolding result using that
    by (simp add: race_advance_fields map_of_plain_set_primitive)
  ultimately show ?thesis by blast
qed

theorem fastest_correct_scores_witness:
  "filter (\<lambda>a. Some (answer_color a) = currentColor race_game) scenario_d
     = [] @ \<lparr> answer_playerId = ''player-2'', answer_color = red, timestamp = 1000 \<rparr> # []
   \<and> roundWinner (processRound 1 race_game scenario_d) = Some ''player-2''
   \<and> map_of (scores (processRound 1 race_game scenario_d)) ''player-2'' = Some (Score 1)
   \<and> map_of (scores (processRound 1 race_game scenario_d)) ''player-1'' = Some (Score 0)
   \<and> filter (\<lambda>a. Some (answer_color a) = currentColor race_game) tied_answers
     = [\<lparr> answer_playerId = ''player-1'', answer_color = red, timestamp = 1500 \<rparr>]
       @ \<lparr> answer_playerId = ''player-2'', answer_color = red, timestamp = 1000 \<rparr>
       # [\<lparr> answer_playerId = ''player-3'', answer_color = red, timestamp = 1000 \<rparr>]
   \<and> roundWinner (processRound 1 race_game tied_answers) = Some ''player-2''
   \<and> map_of (scores (processRound 1 race_game tied_answers)) ''player-2'' = Some (Score 1)
   \<and> map_of (scores (processRound 1 race_game tied_answers)) ''player-3'' = None"
proof -
  let ?a = "\<lparr> answer_playerId = ''player-1'', answer_color = red, timestamp = 1500 \<rparr>"
  let ?w = "\<lparr> answer_playerId = ''player-2'', answer_color = red, timestamp = 1000 \<rparr>"
  let ?c = "\<lparr> answer_playerId = ''player-3'', answer_color = red, timestamp = 1000 \<rparr>"
  have correct: "filter (\<lambda>a. Some (answer_color a) = currentColor race_game) scenario_d
                   = [] @ ?w # []"
    by (simp add: race_game_def scenario_d_def)
  have pre: "\<forall>a \<in> set []. timestamp ?w < timestamp a" by simp
  have post: "\<forall>a \<in> set []. timestamp ?w \<le> timestamp a" by simp
  have correct': "filter (\<lambda>a. Some (answer_color a) = currentColor race_game) tied_answers
                   = [?a] @ ?w # [?c]"
    by (simp add: race_game_def tied_answers_def)
  have pre': "\<forall>a \<in> set [?a]. timestamp ?w < timestamp a" by simp
  have post': "\<forall>a \<in> set [?c]. timestamp ?w \<le> timestamp a" by simp
  have sc: "map_of (scores race_game) ''player-2'' = Some (Score 0)"
    "map_of (scores race_game) ''player-1'' = Some (Score 0)"
    "map_of (scores race_game) ''player-3'' = None"
    by (simp_all add: race_game_def)
  note d = fastest_correct_scores [OF correct pre post, of 1]
  note t = fastest_correct_scores [OF correct' pre' post', of 1]
  from d have d1: "roundWinner (processRound 1 race_game scenario_d) = Some ''player-2''"
    by simp
  from d sc have d2: "map_of (scores (processRound 1 race_game scenario_d)) ''player-2''
      = Some (Score 1)"
    by (simp add: to_double_exact)
  from d sc have d3: "map_of (scores (processRound 1 race_game scenario_d)) ''player-1''
      = Some (Score 0)"
    by simp
  from t have t1: "roundWinner (processRound 1 race_game tied_answers) = Some ''player-2''"
    by simp
  from t sc have t2: "map_of (scores (processRound 1 race_game tied_answers)) ''player-2''
      = Some (Score 1)"
    by (simp add: to_double_exact)
  from t sc have t3: "map_of (scores (processRound 1 race_game tied_answers)) ''player-3''
      = None"
    by simp
  from correct d1 d2 d3 correct' t1 t2 t3 show ?thesis by blast
qed

text \<open>
  The claim as stated adds one point to every score. The score \<open>2^53\<close> stays as it
  is, because \<open>2^53 + 1\<close> is no double and the nearest double with an even quotient is
  \<open>2^53\<close>.
\<close>

theorem big_score_counterexample:
  "currentColor big_score_game = Some red
   \<and> map_of (scores big_score_game) ''player-2'' = Some (Score 9007199254740992)
   \<and> roundWinner (processRound 1 big_score_game scenario_d) = Some ''player-2''
   \<and> map_of (scores (processRound 1 big_score_game scenario_d)) ''player-2''
       = Some (Score 9007199254740992)"
  by code_simp

section \<open>End of a Color Race game and its winner\<close>

lemma highestScore_none:
  "\<forall>k \<in> set ks. \<forall>v. map_of sc k = Some (Score v) \<longrightarrow> v \<le> m \<Longrightarrow>
     foldl (highestScore_step sc) (w, m) ks = (w, m)"
  by (induction ks) (auto simp: highestScore_step_def split: option.splits score.splits)

lemma highestScore_below:
  "m < v \<Longrightarrow> \<forall>k \<in> set ks. \<forall>v'. map_of sc k = Some (Score v') \<longrightarrow> v' < v \<Longrightarrow>
     snd (foldl (highestScore_step sc) (w, m) ks) < v"
  by (induction ks arbitrary: m w)
     (auto simp: highestScore_step_def split: option.splits score.splits)

lemma highestScore_first_max:
  assumes "map_of sc k = Some (Score v)" and "m < v"
    and pre: "\<forall>k' \<in> set pre. \<forall>v'. map_of sc k' = Some (Score v') \<longrightarrow> v' < v"
    and post: "\<forall>k' \<in> set post. \<forall>v'. map_of sc k' = Some (Score v') \<longrightarrow> v' \<le> v"
  shows "foldl (highestScore_step sc) (w, m) (pre @ k # post) = (k, v)"
proof -
  obtain w1 m1 where acc: "foldl (highestScore_step sc) (w, m) pre = (w1, m1)"
    by (cases "foldl (highestScore_step sc) (w, m) pre")
  from highestScore_below [OF assms(2) pre, of w] acc have "m1 < v" by simp
  with assms(1) have "highestScore_step sc (w1, m1) k = (k, v)"
    by (simp add: highestScore_step_def)
  with acc post show ?thesis
    by (simp add: highestScore_none)
qed

lemma processRound_cases:
  "\<exists>s' w. processRound ri s answers = race_advanceToNextRound ri s' w
      \<and> race_round s' = race_round s \<and> totalRounds s' = totalRounds s"
  by (auto simp: processRound_def Let_def)

text \<open>
  When some score is above \<open>-1\<close>, there is a first key with the highest score, the
  one that the theorem below speaks of.
\<close>

lemma highest_score_exists:
  assumes "\<exists>k \<in> set (obj_keys (scores s)). \<exists>v. map_of (scores s) k = Some (Score v) \<and> -1 < v"
  shows "\<exists>pre k post v. obj_keys (scores s) = pre @ k # post
          \<and> map_of (scores s) k = Some (Score v) \<and> -1 < v
          \<and> (\<forall>k' \<in> set pre. \<forall>v'. map_of (scores s) k' = Some (Score v') \<longrightarrow> v' < v)
          \<and> (\<forall>k' \<in> set post. \<forall>v'. map_of (scores s) k' = Some (Score v') \<longrightarrow> v' \<le> v)"
proof -
  let ?k = "\<lambda>k. case map_of (scores s) k of Some (Score v) \<Rightarrow> Some v | _ \<Rightarrow> None"
  have k: "?k a = Some v \<longleftrightarrow> map_of (scores s) a = Some (Score v)" for a v
    by (simp split: option.splits score.splits)
  from assms have "\<exists>a \<in> set (obj_keys (scores s)). \<exists>v. ?k a = Some v \<and> -1 < v"
    unfolding k .
  from first_highest_exists [where k = ?k, OF this] show ?thesis
    unfolding k .
qed

text \<open>
  Claim C6, as the code has it. When \<open>s.round >= s.totalRounds\<close>,
  \<open>processRound(s, answers)\<close> returns a state with phase \<open>finished\<close> and
  \<open>currentColor\<close> \<open>null\<close>; when \<open>s.round < s.totalRounds\<close> it returns a state with
  phase \<open>showing_color\<close> whose round is the double nearest to \<open>s.round + 1\<close>, which
  is \<open>s.round + 1\<close> when \<open>s.round\<close> is below \<open>2^53\<close> in magnitude.
  \<open>determineWinner(s)\<close> is \<open>null\<close> exactly when \<open>s.scores\<close> is empty. It returns the
  first player, in enumeration order, with the highest score, together with that score,
  provided that this score is greater than \<open>-1\<close>: every key before it has a lower
  score, every key after it has at most that score.
\<close>

theorem race_end_and_winner:
  "(race_round s \<ge> totalRounds s \<longrightarrow>
      race_phase (processRound ri s answers) = race_finished
      \<and> currentColor (processRound ri s answers) = None)
   \<and> (race_round s < totalRounds s \<longrightarrow>
        race_round (processRound ri s answers) = to_double (race_round s + 1)
        \<and> (\<bar>race_round s\<bar> < 9007199254740992 \<longrightarrow>
             race_round (processRound ri s answers) = race_round s + 1)
        \<and> race_phase (processRound ri s answers) = showing_color)
   \<and> (determineWinner s = None \<longleftrightarrow> scores s = [])
   \<and> (\<forall>pre k post v.
          obj_keys (scores s) = pre @ k # post
          \<and> map_of (scores s) k = Some (Score v) \<and> -1 < v
          \<and> (\<forall>k' \<in> set pre. \<forall>v'. map_of (scores s) k' = Some (Score v') \<longrightarrow> v' < v)
          \<and> (\<forall>k' \<in> set post. \<forall>v'. map_of (scores s) k' = Some (Score v') \<longrightarrow> v' \<le> v)
          \<longrightarrow> determineWinner s = Some (k, v))"
proof (intro conjI allI impI)
  obtain s' w where pr: "processRound ri s answers = race_advanceToNextRound ri s' w"
    and rd: "race_round s' = race_round s" and tr: "totalRounds s' = totalRounds s"
    using processRound_cases by blast
  { assume "race_round s \<ge> totalRounds s"
    then show "race_phase (processRound ri s answers) = race_finished"
      and "currentColor (processRound ri s answers) = None"
      unfolding pr by (simp_all add: race_advance_fields rd tr) }
  { assume lt: "race_round s < totalRounds s"
    then show "race_round (processRound ri s answers) = to_double (race_round s + 1)"
      and "race_phase (processRound ri s answers) = showing_color"
      unfolding pr by (simp_all add: race_advance_fields rd tr)
    assume "\<bar>race_round s\<bar> < 9007199254740992"
    with lt show "race_round (processRound ri s answers) = race_round s + 1"
      unfolding pr by (simp add: race_advance_fields rd tr to_double_exact) }
  show "determineWinner s = None \<longleftrightarrow> scores s = []"
    by (simp add: determineWinner_def obj_keys_def)
next
  fix pre k post v
  assume a: "obj_keys (scores s) = pre @ k # post
          \<and> map_of (scores s) k = Some (Score v) \<and> -1 < v
          \<and> (\<forall>k' \<in> set pre. \<forall>v'. map_of (scores s) k' = Some (Score v') \<longrightarrow> v' < v)
          \<and> (\<forall>k' \<in> set post. \<forall>v'. map_of (scores s) k' = Some (Score v') \<longrightarrow> v' \<le> v)"
  then have keys: "obj_keys (scores s) = pre @ k # post"
    and k: "map_of (scores s) k = Some (Score v)" and v: "-1 < v"
    and pre: "\<forall>k' \<in> set pre. \<forall>v'. map_of (scores s) k' = Some (Score v') \<longrightarrow> v' < v"
    and post: "\<forall>k' \<in> set post. \<forall>v'. map_of (scores s) k' = Some (Score v') \<longrightarrow> v' \<le> v"
    by blast+
  show "determineWinner s = Some (k, v)"
    using highestScore_first_max [OF k v pre post, of "[]"]
    by (simp add: determineWinner_def keys)
qed

theorem race_end_and_winner_witness:
  "race_round last_round_game \<ge> totalRounds last_round_game
   \<and> race_phase (processRound 0 last_round_game scenario_d) = race_finished
   \<and> currentColor (processRound 0 last_round_game scenario_d) = None
   \<and> race_round race_game < totalRounds race_game
   \<and> race_round (processRound 0 race_game scenario_d) = 2
   \<and> race_phase (processRound 0 race_game scenario_d) = showing_color
   \<and> obj_keys (scores tied_scores_game) = [] @ ''player-1'' # [''player-2'']
   \<and> determineWinner tied_scores_game = Some (''player-1'', 2)"
proof -
  have last: "race_round last_round_game \<ge> totalRounds last_round_game"
    by (simp add: last_round_game_def race_game_def)
  have first: "race_round race_game < totalRounds race_game"
    and rd: "race_round race_game = 1"
    by (simp_all add: race_game_def)
  have keys: "obj_keys (scores tied_scores_game) = [] @ ''player-1'' # [''player-2'']"
    by (simp add: tied_scores_game_def race_game_def obj_keys_def)
  have sc: "scores tied_scores_game = [(''player-1'', Score 2), (''player-2'', Score 2)]"
    by (simp add: tied_scores_game_def race_game_def)
  have tie: "obj_keys (scores tied_scores_game) = pre @ k # post
          \<and> map_of (scores tied_scores_game) k = Some (Score v) \<and> -1 < v
          \<and> (\<forall>k' \<in> set pre. \<forall>v'. map_of (scores tied_scores_game) k' = Some (Score v')
                \<longrightarrow> v' < v)
          \<and> (\<forall>k' \<in> set post. \<forall>v'. map_of (scores tied_scores_game) k' = Some (Score v')
                \<longrightarrow> v' \<le> v)
          \<longrightarrow> determineWinner tied_scores_game = Some (k, v)" for pre k post v
    using race_end_and_winner [of tied_scores_game 0 "[]"] by blast
  have w: "determineWinner tied_scores_game = Some (''player-1'', 2)"
    using tie [of "[]" "''player-1''" "[''player-2'']" 2] keys by (simp add: sc)
  from race_end_and_winner [of last_round_game 0 scenario_d] last
  have l: "race_phase (processRound 0 last_round_game scenario_d) = race_finished"
    "currentColor (processRound 0 last_round_game scenario_d) = None"
    by blast+
  from race_end_and_winner [of race_game 0 scenario_d] first rd
  have f: "race_round (processRound 0 race_game scenario_d) = 2"
    "race_phase (processRound 0 race_game scenario_d) = showing_color"
    by simp_all
  from last l first f keys w show ?thesis by blast
qed

text \<open>
  The claim as stated puts no lower bound on the scores and no upper bound on the round:
  when every score is negative, the loop never leaves its initial values, the empty
  \<open>winnerId\<close> and the score \<open>-1\<close>; and the round \<open>2^53\<close> stays as it is, because
  \<open>2^53 + 1\<close> is no double and the nearest double with an even quotient is \<open>2^53\<close>.
\<close>

theorem race_winner_counterexample:
  "scores negative_scores_game = [(''player-1'', Score (-2)), (''player-2'', Score (-3))]
   \<and> determineWinner negative_scores_game = Some ([], -1)
   \<and> race_round late_race_game = 9007199254740992
   \<and> race_round late_race_game < totalRounds late_race_game
   \<and> race_round (processRound 0 late_race_game scenario_d) = 9007199254740992"
  by code_simp

section \<open>Generation of game codes\<close>

lemma foldl_append_pieces: "foldl (\<lambda>code i. code @ f i) acc xs = acc @ concat (map f xs)"
  by (induction xs arbitrary: acc) simp_all

lemma generateRandomCode_map:
  assumes "\<forall>i<GAME_CODE_LENGTH. rnd i < length GAME_CODE_CHARS"
  shows "generateRandomCode rnd = map (\<lambda>i. GAME_CODE_CHARS ! rnd i) [0..<GAME_CODE_LENGTH]"
proof -
  have "concat (map (\<lambda>i. if rnd i < length GAME_CODE_CHARS then [GAME_CODE_CHARS ! rnd i]
                      else ''undefined'') xs) = map (\<lambda>i. GAME_CODE_CHARS ! rnd i) xs"
    if "\<forall>i \<in> set xs. rnd i < length GAME_CODE_CHARS" for xs
    using that by (induction xs) simp_all
  with assms show ?thesis
    by (simp add: generateRandomCode_def foldl_append_pieces)
qed

lemma generateRandomCode_shape:
  assumes "\<forall>i<GAME_CODE_LENGTH. rnd i < length GAME_CODE_CHARS"
  shows "length (generateRandomCode rnd) = 6"
    and "set (generateRandomCode rnd) \<subseteq> set GAME_CODE_CHARS"
  using assms by (auto simp: generateRandomCode_map GAME_CODE_LENGTH_def)

lemma loop_stop:
  "\<not> a < n \<Longrightarrow> generateGameCode_loop rnd ex n a
     = Inl (Error ''Failed to generate unique game code after maximum attempts'')"
  by (subst generateGameCode_loop.simps) simp

lemma loop_hit:
  "a < n \<Longrightarrow> generateRandomCode (rnd a) \<notin> ex \<Longrightarrow>
     generateGameCode_loop rnd ex n a = Inr (generateRandomCode (rnd a))"
  by (subst generateGameCode_loop.simps) simp

lemma loop_miss:
  "a < n \<Longrightarrow> generateRandomCode (rnd a) \<in> ex \<Longrightarrow>
     generateGameCode_loop rnd ex n a = generateGameCode_loop rnd ex n (a + 1)"
  by (subst generateGameCode_loop.simps) simp

lemma loop_result:
  "generateGameCode_loop rnd ex n a = Inr code \<Longrightarrow>
     \<exists>k. a \<le> k \<and> k < n \<and> code = generateRandomCode (rnd k) \<and> code \<notin> ex"
proof (induction rnd ex n a rule: generateGameCode_loop.induct)
  case (1 rnd ex n a)
  show ?case
  proof (cases "a < n")
    case False
    with "1.prems" show ?thesis by (simp add: loop_stop)
  next
    case True
    show ?thesis
    proof (cases "generateRandomCode (rnd a) \<in> ex")
      case False
      with True "1.prems" have "code = generateRandomCode (rnd a)"
        by (simp add: loop_hit)
      with True False show ?thesis by (intro exI [of _ a]) simp
    next
      case coll: True
      with True "1.prems" have "generateGameCode_loop rnd ex n (a + 1) = Inr code"
        by (simp add: loop_miss)
      from "1.IH" [OF True _ this] coll
      obtain k where "a + 1 \<le> k" "k < n" "code = generateRandomCode (rnd k)" "code \<notin> ex"
        by blast
      then show ?thesis by (intro exI [of _ k]) simp
    qed
  qed
qed

lemma loop_failure:
  "(\<exists>e. generateGameCode_loop rnd ex n a = Inl e)
     \<longleftrightarrow> (\<forall>j. a \<le> j \<and> j < n \<longrightarrow> generateRandomCode (rnd j) \<in> ex)"
proof (induction rnd ex n a rule: generateGameCode_loop.induct)
  case (1 rnd ex n a)
  show ?case
  proof (cases "a < n")
    case False
    then show ?thesis by (auto simp: loop_stop)
  next
    case True
    show ?thesis
    proof (cases "generateRandomCode (rnd a) \<in> ex")
      case False
      with True show ?thesis by (auto simp: loop_hit)
    next
      case coll: True
      have "(\<forall>j. a \<le> j \<and> j < n \<longrightarrow> generateRandomCode (rnd j) \<in> ex)
              \<longleftrightarrow> (\<forall>j. a + 1 \<le> j \<and> j < n \<longrightarrow> generateRandomCode (rnd j) \<in> ex)"
      proof (intro iffI allI impI)
        fix j assume "\<forall>j. a \<le> j \<and> j < n \<longrightarrow> generateRandomCode (rnd j) \<in> ex"
          and "a + 1 \<le> j \<and> j < n"
        then show "generateRandomCode (rnd j) \<in> ex" by simp
      next
        fix j assume all: "\<forall>j. a + 1 \<le> j \<and> j < n \<longrightarrow> generateRandomCode (rnd j) \<in> ex"
          and j: "a \<le> j \<and> j < n"
        show "generateRandomCode (rnd j) \<in> ex"
        proof (cases "j = a")
          case True
          with coll show ?thesis by simp
        next
          case False
          with j have "a + 1 \<le> j \<and> j < n" by simp
          with all show ?thesis by blast
        qed
      qed
      moreover have "generateGameCode_loop rnd ex n a = generateGameCode_loop rnd ex n (a + 1)"
        using True coll by (rule loop_miss)
      ultimately show ?thesis using "1.IH" [OF True] coll by simp
    qed
  qed
qed

text \<open>
  Claim C7. Let every random index that \<open>generateGameCode\<close> draws be an index of the
  alphabet, as \<open>Math.floor(Math.random() * GAME_CODE_CHARS.length)\<close> is. When
  \<open>generateGameCode\<close> returns a code, the code has 6 characters, each of them from the
  alphabet \<open>ABCDEFGHJKMNPQRSTUVWXYZ23456789\<close> and so none of \<open>0\<close>, \<open>O\<close>, \<open>1\<close>,
  \<open>I\<close>, \<open>L\<close>, and it is not one of the existing codes. It throws exactly when the
  code of every attempt below \<open>maxAttempts\<close> is an existing code.
\<close>

theorem game_code_format:
  assumes draws: "\<forall>a<maxAttempts. \<forall>i<GAME_CODE_LENGTH. rnd a i < length GAME_CODE_CHARS"
  shows "(\<forall>code. generateGameCode rnd existingCodes maxAttempts = Inr code \<longrightarrow>
            length code = 6
            \<and> set code \<subseteq> set ''ABCDEFGHJKMNPQRSTUVWXYZ23456789''
            \<and> set code \<inter> set ''0O1IL'' = {}
            \<and> code \<notin> existingCodes)
       \<and> ((\<exists>e. generateGameCode rnd existingCodes maxAttempts = Inl e)
            \<longleftrightarrow> (\<forall>a<maxAttempts. generateRandomCode (rnd a) \<in> existingCodes))"
proof -
  have ok: "length code = 6
            \<and> set code \<subseteq> set ''ABCDEFGHJKMNPQRSTUVWXYZ23456789''
            \<and> set code \<inter> set ''0O1IL'' = {}
            \<and> code \<notin> existingCodes"
    if "generateGameCode rnd existingCodes maxAttempts = Inr code" for code
  proof -
    from that obtain k where k: "k < maxAttempts" and code: "code = generateRandomCode (rnd k)"
      and fresh: "code \<notin> existingCodes"
      unfolding generateGameCode_def by (blast dest: loop_result)
    from draws k have d: "\<forall>i<GAME_CODE_LENGTH. rnd k i < length GAME_CODE_CHARS" by blast
    from generateRandomCode_shape [OF d] code
    have len: "length code = 6" and sub: "set code \<subseteq> set GAME_CODE_CHARS" by simp_all
    have "set GAME_CODE_CHARS \<inter> set ''0O1IL'' = {}"
      by (simp add: GAME_CODE_CHARS_def)
    with sub have "set code \<inter> set ''0O1IL'' = {}" by blast
    with len sub fresh show ?thesis
      by (simp add: GAME_CODE_CHARS_def)
  qed
  have fail: "(\<exists>e. generateGameCode rnd existingCodes maxAttempts = Inl e)
            \<longleftrightarrow> (\<forall>a<maxAttempts. generateRandomCode (rnd a) \<in> existingCodes)"
    unfolding generateGameCode_def using loop_failure [of rnd existingCodes maxAttempts 0] by simp
  from ok fail show ?thesis by blast
qed

theorem game_code_format_witness:
  "generateGameCode example_draws {''AAAAAA''} 3 = Inr ''ABCDEF''
   \<and> length ''ABCDEF'' = 6
   \<and> set ''ABCDEF'' \<inter> set ''0O1IL'' = {}
   \<and> ''ABCDEF'' \<notin> {''AAAAAA''}
   \<and> generateRandomCode (example_draws 0) = ''AAAAAA''
   \<and> generateRandomCode (example_draws 1) = ''ABCDEF''
   \<and> (\<exists>e. generateGameCode example_draws {''AAAAAA'', ''ABCDEF''} 2 = Inl e)"
proof -
  have d3: "\<forall>a<3. \<forall>i<GAME_CODE_LENGTH. example_draws a i < length GAME_CODE_CHARS"
    by (simp add: example_draws_def GAME_CODE_LENGTH_def GAME_CODE_CHARS_def)
  have d2: "\<forall>a<2. \<forall>i<GAME_CODE_LENGTH. example_draws a i < length GAME_CODE_CHARS"
    by (simp add: example_draws_def GAME_CODE_LENGTH_def GAME_CODE_CHARS_def)
  have r: "generateGameCode example_draws {''AAAAAA''} 3 = Inr ''ABCDEF''"
    by code_simp
  have c0: "generateRandomCode (example_draws 0) = ''AAAAAA''"
    by code_simp
  have c1: "generateRandomCode (example_draws 1) = ''ABCDEF''"
    by code_simp
  have coll: "\<forall>a<2. generateRandomCode (example_draws a) \<in> {''AAAAAA'', ''ABCDEF''}"
  proof (intro allI impI)
    fix a :: nat
    assume "a < 2"
    then have "a = 0 \<or> a = 1" by auto
    with c0 c1 show "generateRandomCode (example_draws a) \<in> {''AAAAAA'', ''ABCDEF''}"
      by auto
  qed
  from game_code_format [OF d3, of "{''AAAAAA''}"] r
  have ok: "length ''ABCDEF'' = 6 \<and> set ''ABCDEF'' \<inter> set ''0O1IL'' = {}
            \<and> ''ABCDEF'' \<notin> {''AAAAAA''}"
    by blast
  from game_code_format [OF d2, of "{''AAAAAA'', ''ABCDEF''}"] coll
  have fail: "\<exists>e. generateGameCode example_draws {''AAAAAA'', ''ABCDEF''} 2 = Inl e"
    by blast
  from r ok c0 c1 fail show ?thesis by blast
qed

end
